theory Spec2Isabelle
  imports Main "HOL-Library.AList"
begin

section \<open>Company dashboard tracker: the scraping pipeline\<close>

text \<open>
  A shallow embedding of \<^verbatim>\<open>company_dashboard_tracker.py\<close>: the list collector
  (\<^verbatim>\<open>scrape_watchlist_companies\<close>, \<^verbatim>\<open>get_all_watchlist_companies\<close>), the record
  extractor (\<^verbatim>\<open>scrape_company_data\<close>), the batch orchestrator
  (\<^verbatim>\<open>scrape_all_companies\<close>) and the control flow of \<^verbatim>\<open>main\<close>.

  The browser is modelled by what its calls give back. Every call that can raise
  returns an \<open>option\<close>, \<open>None\<close> standing for the exception; the \<^verbatim>\<open>try\<close> blocks of
  the source are the \<open>case\<close> distinctions on these values, and a dictionary mutated in
  place before an exception keeps what was stored, because the model returns the record
  updated so far.
\<close>

subsection \<open>Strings\<close>

text \<open>
  \<^verbatim>\<open>str.strip()\<close>, \<^verbatim>\<open>str.lower()\<close> and the operator \<^verbatim>\<open>in\<close> on strings. A string is a
  \<open>char list\<close> and a \<open>char\<close> is read as the code point of that number: the model covers
  the strings whose code points are below 256, and on them \<open>is_space\<close> is
  \<^verbatim>\<open>str.isspace\<close> (the ASCII white space, U+0085 and U+00A0) and \<open>lower_char\<close> is
  \<^verbatim>\<open>str.lower\<close> (the letters A to Z and the capital letters U+00C0 to U+00DE, without
  the sign U+00D7, each moved up by 32). Text with code points from 256 on is outside
  the model.
\<close>

definition is_space :: "char \<Rightarrow> bool" where
  "is_space c \<longleftrightarrow> c \<in> set [CHR 0x09, CHR 0x0A, CHR 0x0B, CHR 0x0C, CHR 0x0D,
                            CHR 0x1C, CHR 0x1D, CHR 0x1E, CHR 0x1F, CHR 0x20,
                            CHR 0x85, CHR 0xA0]"

definition strip :: "string \<Rightarrow> string" where
  "strip s = rev (dropWhile is_space (rev (dropWhile is_space s)))"

definition upper_chars :: string where
  "upper_chars =
     ''ABCDEFGHIJKLMNOPQRSTUVWXYZ'' @
     [CHR 0xC0, CHR 0xC1, CHR 0xC2, CHR 0xC3, CHR 0xC4, CHR 0xC5, CHR 0xC6, CHR 0xC7,
      CHR 0xC8, CHR 0xC9, CHR 0xCA, CHR 0xCB, CHR 0xCC, CHR 0xCD, CHR 0xCE, CHR 0xCF,
      CHR 0xD0, CHR 0xD1, CHR 0xD2, CHR 0xD3, CHR 0xD4, CHR 0xD5, CHR 0xD6,
      CHR 0xD8, CHR 0xD9, CHR 0xDA, CHR 0xDB, CHR 0xDC, CHR 0xDD, CHR 0xDE]"

definition lower_chars :: string where
  "lower_chars =
     ''abcdefghijklmnopqrstuvwxyz'' @
     [CHR 0xE0, CHR 0xE1, CHR 0xE2, CHR 0xE3, CHR 0xE4, CHR 0xE5, CHR 0xE6, CHR 0xE7,
      CHR 0xE8, CHR 0xE9, CHR 0xEA, CHR 0xEB, CHR 0xEC, CHR 0xED, CHR 0xEE, CHR 0xEF,
      CHR 0xF0, CHR 0xF1, CHR 0xF2, CHR 0xF3, CHR 0xF4, CHR 0xF5, CHR 0xF6,
      CHR 0xF8, CHR 0xF9, CHR 0xFA, CHR 0xFB, CHR 0xFC, CHR 0xFD, CHR 0xFE]"

definition lower_char :: "char \<Rightarrow> char" where
  "lower_char c =
     (case map_of (zip upper_chars lower_chars) c of
        None \<Rightarrow> c
      | Some l \<Rightarrow> l)"

definition lower :: "string \<Rightarrow> string" where
  "lower s = map lower_char s"

fun starts_with :: "string \<Rightarrow> string \<Rightarrow> bool" where
  "starts_with [] s = True"
| "starts_with (p # ps) [] = False"
| "starts_with (p # ps) (c # cs) = (p = c \<and> starts_with ps cs)"

text \<open>\<open>str_in sub s\<close> is \<^verbatim>\<open>sub in s\<close>: \<open>sub\<close> occurs in \<open>s\<close> as a contiguous substring.\<close>

fun str_in :: "string \<Rightarrow> string \<Rightarrow> bool" where
  "str_in sub [] = (sub = [])"
| "str_in sub (c # cs) = (starts_with sub (c # cs) \<or> str_in sub cs)"

subsection \<open>The pages as the driver sees them\<close>

text \<open>
  An element handle is modelled by its \<^verbatim>\<open>.text\<close>: \<open>None\<close> when reading it raises.
  A looked-up element is an \<open>elem option\<close>: \<open>None\<close> when \<^verbatim>\<open>find_element\<close> raises.
\<close>

type_synonym elem = "string option"

text \<open>A table row is the list of its \<^verbatim>\<open>td\<close> cells; \<open>None\<close> when \<^verbatim>\<open>find_elements\<close> on it raises.\<close>

type_synonym table_row = "elem list option"

text \<open>
  The anchor \<^verbatim>\<open>td a\<close> of a watchlist row. \<^verbatim>\<open>get_attribute('href')\<close> raises (\<open>None\<close>),
  returns Python's \<^verbatim>\<open>None\<close> (\<open>Some None\<close>) or a string.
\<close>

record anchor =
  anchor_text :: elem
  anchor_href :: "string option option"

text \<open>A watchlist row: its anchor, \<open>None\<close> when \<^verbatim>\<open>find_element\<close> raises.\<close>

type_synonym listing_row = "anchor option"

text \<open>
  A table of a \<^verbatim>\<open>section.card\<close>: its first header cell \<^verbatim>\<open>thead th\<close> and its body rows
  \<^verbatim>\<open>tbody tr\<close>, each \<open>None\<close> when the lookup raises.
\<close>

record card_table =
  thead_th :: "elem option"
  tbody_tr :: "table_row list option"

text \<open>
  A company page. \<open>quarters_tr\<close> is the result of the three successive lookups
  \<^verbatim>\<open>section#quarters\<close>, \<^verbatim>\<open>table\<close>, \<^verbatim>\<open>tbody tr\<close>: \<open>None\<close> when one of them raises.
\<close>

record detail_page =
  price_elem :: "elem option"
  mcap_elem :: "elem option"
  pe_elem :: "elem option"
  sector_elem :: "elem option"
  card_tables :: "card_table list option"
  quarters_tr :: "table_row list option"

text \<open>
  The driver: the site it browses and the list of URLs it was sent to, oldest first.
  \<open>listing u\<close> is what the watchlist at \<open>u\<close> yields after \<^verbatim>\<open>driver.get\<close>, the wait for a
  table and \<^verbatim>\<open>find_elements\<close> (\<open>None\<close> when one of them raises); \<open>detail u\<close> is the
  company page at \<open>u\<close> (\<open>None\<close> when \<^verbatim>\<open>driver.get\<close> raises); \<open>login_succeeds\<close> is
  the outcome of the login form.
\<close>

record driver =
  listing :: "string \<Rightarrow> listing_row list option"
  detail :: "string \<Rightarrow> detail_page option"
  login_succeeds :: bool
  history :: "string list"

definition driver_get :: "driver \<Rightarrow> string \<Rightarrow> driver" where
  "driver_get d u = d\<lparr>history := history d @ [u]\<rparr>"

subsection \<open>The records\<close>

record company =
  name :: string
  url :: string

record quarter =
  period :: string
  sales :: string
  profit :: string

text \<open>
  The dictionary \<^verbatim>\<open>data\<close>. The three series are dictionaries in insertion order:
  association lists written with \<open>AList.update\<close>, which replaces the value of a key
  in place and appends a new key at the end.
\<close>

record company_data = company +
  current_price :: "string option"
  market_cap :: "string option"
  pe_ratio :: "string option"
  sector :: "string option"
  revenue_data :: "(string \<times> string list) list"
  profit_data :: "(string \<times> string list) list"
  margin_data :: "(string \<times> string list) list"
  quarterly_data :: "quarter list"

subsection \<open>List collector\<close>

text \<open>The body of the loop over the rows of a watchlist.\<close>

definition scrape_listing_row :: "listing_row \<Rightarrow> company list \<Rightarrow> company list" where
  "scrape_listing_row row companies =
     (case row of
        None \<Rightarrow> companies
      | Some name_cell \<Rightarrow>
          (case anchor_text name_cell of
             None \<Rightarrow> companies
           | Some t \<Rightarrow>
               (case anchor_href name_cell of
                  None \<Rightarrow> companies
                | Some None \<Rightarrow> companies
                | Some (Some company_url) \<Rightarrow>
                    if strip t \<noteq> [] \<and> company_url \<noteq> []
                    then companies @ [\<lparr>name = strip t, url = company_url\<rparr>]
                    else companies)))"

definition scrape_watchlist_companies :: "driver \<Rightarrow> string \<Rightarrow> company list \<times> driver" where
  "scrape_watchlist_companies d watchlist_url =
     (if watchlist_url = [] then ([], d)
      else
        (case listing d watchlist_url of
           None \<Rightarrow> ([], driver_get d watchlist_url)
         | Some rows \<Rightarrow> (fold scrape_listing_row rows [], driver_get d watchlist_url)))"

text \<open>The inner loop of \<^verbatim>\<open>get_all_watchlist_companies\<close>, over the companies of one watchlist.\<close>

fun add_companies ::
  "company list \<Rightarrow> company list \<Rightarrow> string set \<Rightarrow> company list \<times> string set" where
  "add_companies [] all_companies seen = (all_companies, seen)"
| "add_companies (c # cs) all_companies seen =
     (if name c \<notin> seen
      then add_companies cs (all_companies @ [c]) (insert (name c) seen)
      else add_companies cs all_companies seen)"

text \<open>The outer loop, over the items of \<^verbatim>\<open>WATCHLISTS\<close> (label, URL).\<close>

fun collect_watchlists ::
  "(string \<times> string) list \<Rightarrow> driver \<Rightarrow> company list \<Rightarrow> string set \<Rightarrow> company list \<times> driver"
  where
  "collect_watchlists [] d all_companies seen = (all_companies, d)"
| "collect_watchlists ((label, u) # ws) d all_companies seen =
     (if u \<noteq> [] then
        (case scrape_watchlist_companies d u of
           (companies, d') \<Rightarrow>
             (case add_companies companies all_companies seen of
                (all_companies', seen') \<Rightarrow> collect_watchlists ws d' all_companies' seen'))
      else collect_watchlists ws d all_companies seen)"

definition get_all_watchlist_companies ::
  "driver \<Rightarrow> (string \<times> string) list \<Rightarrow> company list \<times> driver" where
  "get_all_watchlist_companies d watchlists = collect_watchlists watchlists d [] {}"

subsection \<open>Record extractor\<close>

text \<open>\<^verbatim>\<open>find_element(...)\<close> followed by \<^verbatim>\<open>.text.strip()\<close>.\<close>

definition text_strip :: "elem option \<Rightarrow> string option" where
  "text_strip e = (case e of None \<Rightarrow> None | Some None \<Rightarrow> None | Some (Some t) \<Rightarrow> Some (strip t))"

text \<open>
  The first \<^verbatim>\<open>try\<close> block: the four fields are read one after the other, and the first
  exception leaves the block.
\<close>

definition extract_basic_info :: "detail_page \<Rightarrow> company_data \<Rightarrow> company_data" where
  "extract_basic_info p data =
     (case text_strip (price_elem p) of
        None \<Rightarrow> data
      | Some price \<Rightarrow>
          (case text_strip (mcap_elem p) of
             None \<Rightarrow> data\<lparr>current_price := Some price\<rparr>
           | Some mcap \<Rightarrow>
               (case text_strip (pe_elem p) of
                  None \<Rightarrow> data\<lparr>current_price := Some price, market_cap := Some mcap\<rparr>
                | Some pe \<Rightarrow>
                    (case text_strip (sector_elem p) of
                       None \<Rightarrow>
                         data\<lparr>current_price := Some price, market_cap := Some mcap,
                              pe_ratio := Some pe\<rparr>
                     | Some sec \<Rightarrow>
                         data\<lparr>current_price := Some price, market_cap := Some mcap,
                              pe_ratio := Some pe, sector := Some sec\<rparr>))))"

text \<open>The loop \<^verbatim>\<open>for cell in cells[1:]: values.append(cell.text.strip())\<close>.\<close>

fun cell_values :: "elem list \<Rightarrow> string list option" where
  "cell_values [] = Some []"
| "cell_values (None # cs) = None"
| "cell_values (Some t # cs) =
     (case cell_values cs of None \<Rightarrow> None | Some vs \<Rightarrow> Some (strip t # vs))"

text \<open>The chain \<^verbatim>\<open>if ... elif ...\<close> that files a row under one of the three series.\<close>

definition store_metric :: "company_data \<Rightarrow> string \<Rightarrow> string list \<Rightarrow> company_data" where
  "store_metric data metric_name vals =
     (if str_in ''Sales'' metric_name \<or> str_in ''Revenue'' metric_name
      then data\<lparr>revenue_data := AList.update metric_name vals (revenue_data data)\<rparr>
      else if str_in ''Operating Profit'' metric_name \<or> str_in ''EBITDA'' metric_name
      then data\<lparr>profit_data := AList.update metric_name vals (profit_data data)\<rparr>
      else if str_in ''Net Profit'' metric_name
      then data\<lparr>profit_data := AList.update metric_name vals (profit_data data)\<rparr>
      else if str_in ''margin'' (lower metric_name)
      then data\<lparr>margin_data := AList.update metric_name vals (margin_data data)\<rparr>
      else data)"

text \<open>
  The body of the loop over the rows of a table, up to the \<^verbatim>\<open>if\<close> chain: the label
  and the values of the row, \<open>None\<close> when the row has fewer than two cells or reading
  it raises.
\<close>

definition read_row :: "table_row \<Rightarrow> (string \<times> string list) option" where
  "read_row row =
     (case row of
        None \<Rightarrow> None
      | Some cells \<Rightarrow>
          if length cells < 2 then None
          else
            (case cells of
               [] \<Rightarrow> None
             | None # rest \<Rightarrow> None
             | Some t # rest \<Rightarrow>
                 (case cell_values rest of
                    None \<Rightarrow> None
                  | Some vals \<Rightarrow> Some (strip t, vals))))"

definition scrape_row :: "table_row \<Rightarrow> company_data \<Rightarrow> company_data" where
  "scrape_row row data =
     (case read_row row of
        None \<Rightarrow> data
      | Some (metric_name, vals) \<Rightarrow> store_metric data metric_name vals)"

text \<open>The body of the loop over the tables: a table whose header cannot be read is left.\<close>

definition scrape_table :: "card_table \<Rightarrow> company_data \<Rightarrow> company_data" where
  "scrape_table table data =
     (case text_strip (thead_th table) of
        None \<Rightarrow> data
      | Some header \<Rightarrow>
          (case tbody_tr table of
             None \<Rightarrow> data
           | Some rows \<Rightarrow> fold scrape_row rows data))"

definition extract_tables :: "detail_page \<Rightarrow> company_data \<Rightarrow> company_data" where
  "extract_tables p data =
     (case card_tables p of
        None \<Rightarrow> data
      | Some tables \<Rightarrow> fold scrape_table tables data)"

text \<open>The body of the loop over the quarterly rows.\<close>

definition scrape_quarter_row :: "table_row \<Rightarrow> quarter list \<Rightarrow> quarter list" where
  "scrape_quarter_row q_row qs =
     (case q_row of
        None \<Rightarrow> qs
      | Some cells \<Rightarrow>
          if length cells \<ge> 3 then
            (case (cells ! 0, cells ! 1, cells ! 2) of
               (Some p, Some s, Some f) \<Rightarrow>
                 qs @ [\<lparr>period = strip p, sales = strip s, profit = strip f\<rparr>]
             | _ \<Rightarrow> qs)
          else qs)"

definition extract_quarterly :: "detail_page \<Rightarrow> company_data \<Rightarrow> company_data" where
  "extract_quarterly p data =
     (case quarters_tr p of
        None \<Rightarrow> data
      | Some q_rows \<Rightarrow>
          data\<lparr>quarterly_data := fold scrape_quarter_row (take 8 q_rows) (quarterly_data data)\<rparr>)"

definition initial_data :: "company \<Rightarrow> company_data" where
  "initial_data c =
     \<lparr>name = name c, url = url c,
      current_price = None, market_cap = None, pe_ratio = None, sector = None,
      revenue_data = [], profit_data = [], margin_data = [], quarterly_data = []\<rparr>"

definition scrape_company_data :: "driver \<Rightarrow> company \<Rightarrow> company_data option \<times> driver" where
  "scrape_company_data d c =
     (case detail d (url c) of
        None \<Rightarrow> (None, driver_get d (url c))
      | Some p \<Rightarrow>
          (Some (extract_quarterly p (extract_tables p (extract_basic_info p (initial_data c)))),
           driver_get d (url c)))"

subsection \<open>Batch orchestrator\<close>

fun scrape_loop ::
  "company list \<Rightarrow> driver \<Rightarrow> company_data list \<Rightarrow> nat \<Rightarrow> (company_data list \<times> nat) \<times> driver"
  where
  "scrape_loop [] d all_data success_count = ((all_data, success_count), d)"
| "scrape_loop (c # cs) d all_data success_count =
     (case scrape_company_data d c of
        (None, d') \<Rightarrow> scrape_loop cs d' all_data success_count
      | (Some data, d') \<Rightarrow> scrape_loop cs d' (all_data @ [data]) (Suc success_count))"

definition scrape_all_companies :: "driver \<Rightarrow> company list \<Rightarrow> company_data list \<times> driver" where
  "scrape_all_companies d companies =
     (case scrape_loop companies d [] 0 of ((all_data, success_count), d') \<Rightarrow> (all_data, d'))"

subsection \<open>Main\<close>

text \<open>The environment variables; \<open>None\<close> is an unset variable.\<close>

record env =
  SCREENER_USERNAME :: "string option"
  SCREENER_PASSWORD :: "string option"
  GOOGLE_SHEET_ID :: "string option"
  GOOGLE_CREDENTIALS_BASE64 :: "string option"
  MY_STONKS_WATCHLIST_URL :: "string option"
  CORE_WATCHLIST_URL :: "string option"

text \<open>\<^verbatim>\<open>os.getenv(k, '')\<close>.\<close>

definition getenv_default :: "string option \<Rightarrow> string" where
  "getenv_default v = (case v of None \<Rightarrow> [] | Some s \<Rightarrow> s)"

definition WATCHLISTS :: "env \<Rightarrow> (string \<times> string) list" where
  "WATCHLISTS e =
     [(''My Stonks'', getenv_default (MY_STONKS_WATCHLIST_URL e)),
      (''Core Watchlist'', getenv_default (CORE_WATCHLIST_URL e))]"

text \<open>\<^verbatim>\<open>not v\<close> for a variable that is unset or empty.\<close>

definition unset :: "string option \<Rightarrow> bool" where
  "unset v \<longleftrightarrow> v = None \<or> v = Some []"

definition missing :: "env \<Rightarrow> string list" where
  "missing e =
     (if unset (SCREENER_USERNAME e) then [''SCREENER_USERNAME''] else []) @
     (if unset (SCREENER_PASSWORD e) then [''SCREENER_PASSWORD''] else []) @
     (if unset (GOOGLE_SHEET_ID e) then [''GOOGLE_SHEET_ID''] else []) @
     (if unset (GOOGLE_CREDENTIALS_BASE64 e) then [''GOOGLE_CREDENTIALS_BASE64''] else [])"

definition login_url :: string where
  "login_url = ''https://www.screener.in/login/''"

definition login_to_screener :: "driver \<Rightarrow> bool \<times> driver" where
  "login_to_screener d = (login_succeeds d, driver_get d login_url)"

text \<open>
  A run of \<^verbatim>\<open>main\<close>: the status the process ends with (\<^verbatim>\<open>sys.exit(n)\<close>, or 0 when
  \<^verbatim>\<open>main\<close> returns), the URLs the driver was sent to, and the publishers called, each
  with the data set it was given.
\<close>

datatype publisher = GoogleSheets | ExcelDashboard

record run =
  exit_status :: nat
  navigations :: "string list"
  published :: "(publisher \<times> company_data list) list"

text \<open>
  \<open>setup\<close> is the driver that \<^verbatim>\<open>setup_selenium\<close> returns, \<open>None\<close> when it raises.
  \<^verbatim>\<open>sys.exit\<close> raises \<^verbatim>\<open>SystemExit\<close>, which \<^verbatim>\<open>except Exception\<close> does not catch.
\<close>

definition main :: "env \<Rightarrow> driver option \<Rightarrow> run" where
  "main e setup =
     (if missing e \<noteq> [] then \<lparr>exit_status = 1, navigations = [], published = []\<rparr>
      else
        (case setup of
           None \<Rightarrow> \<lparr>exit_status = 1, navigations = [], published = []\<rparr>
         | Some d \<Rightarrow>
             (case login_to_screener d of
                (logged_in, d1) \<Rightarrow>
                  if \<not> logged_in
                  then \<lparr>exit_status = 1, navigations = history d1, published = []\<rparr>
                  else
                    (case get_all_watchlist_companies d1 (WATCHLISTS e) of
                       (companies, d2) \<Rightarrow>
                         if companies = []
                         then \<lparr>exit_status = 0, navigations = history d2, published = []\<rparr>
                         else
                           (case scrape_all_companies d2 companies of
                              (all_data, d3) \<Rightarrow>
                                if all_data = []
                                then \<lparr>exit_status = 1, navigations = history d3, published = []\<rparr>
                                else \<lparr>exit_status = 0, navigations = history d3,
                                      published = [(GoogleSheets, all_data),
                                                   (ExcelDashboard, all_data)]\<rparr>)))))"

subsection \<open>Notions used in the statements\<close>

text \<open>A quarterly row that is kept: at least three cells, the first three readable.\<close>

definition valid_quarter_row :: "table_row \<Rightarrow> bool" where
  "valid_quarter_row r =
     (case r of
        None \<Rightarrow> False
      | Some cells \<Rightarrow> length cells \<ge> 3 \<and> cells ! 0 \<noteq> None \<and> cells ! 1 \<noteq> None \<and> cells ! 2 \<noteq> None)"

text \<open>A table from which nothing is stored: its header or its rows cannot be read, or no row can.\<close>

definition table_raises :: "card_table \<Rightarrow> bool" where
  "table_raises t \<longleftrightarrow>
     text_strip (thead_th t) = None \<or>
     (case tbody_tr t of None \<Rightarrow> True | Some rows \<Rightarrow> list_all (\<lambda>r. read_row r = None) rows)"

text \<open>A company page on which every extraction fails.\<close>

definition all_extraction_raises :: "detail_page \<Rightarrow> bool" where
  "all_extraction_raises p \<longleftrightarrow>
     text_strip (price_elem p) = None \<and> text_strip (mcap_elem p) = None \<and>
     text_strip (pe_elem p) = None \<and> text_strip (sector_elem p) = None \<and>
     (case card_tables p of None \<Rightarrow> True | Some tables \<Rightarrow> list_all table_raises tables) \<and>
     (case quarters_tr p of
        None \<Rightarrow> True
      | Some q_rows \<Rightarrow> list_all (\<lambda>r. \<not> valid_quarter_row r) (take 8 q_rows))"

text \<open>The three series, and the one under which the \<^verbatim>\<open>if\<close> chain of \<open>store_metric\<close> files a label.\<close>

datatype series = Revenue | Profit | Margin

definition series_of :: "string \<Rightarrow> series option" where
  "series_of metric_name =
     (if str_in ''Sales'' metric_name \<or> str_in ''Revenue'' metric_name then Some Revenue
      else if str_in ''Operating Profit'' metric_name \<or> str_in ''EBITDA'' metric_name then Some Profit
      else if str_in ''Net Profit'' metric_name then Some Profit
      else if str_in ''margin'' (lower metric_name) then Some Margin
      else None)"

fun series_data :: "series \<Rightarrow> company_data \<Rightarrow> (string \<times> string list) list" where
  "series_data Revenue data = revenue_data data"
| "series_data Profit data = profit_data data"
| "series_data Margin data = margin_data data"

text \<open>The rows that the loop over the tables reaches, in page order.\<close>

definition scanned_rows :: "card_table list \<Rightarrow> table_row list" where
  "scanned_rows tables =
     concat (map (\<lambda>table.
       case text_strip (thead_th table) of
         None \<Rightarrow> []
       | Some header \<Rightarrow> (case tbody_tr table of None \<Rightarrow> [] | Some rows \<Rightarrow> rows)) tables)"

text \<open>The companies of a list whose name is neither in \<open>seen\<close> nor earlier in the list.\<close>

fun first_seen :: "string set \<Rightarrow> company list \<Rightarrow> company list" where
  "first_seen seen [] = []"
| "first_seen seen (c # cs) =
     (if name c \<in> seen then first_seen seen cs else c # first_seen (insert (name c) seen) cs)"

subsection \<open>Example inputs\<close>

definition ex_company :: company where
  "ex_company = \<lparr>name = ''Acme'', url = ''https://www.screener.in/company/ACME/''\<rparr>"

text \<open>A site that serves one company page, at the URL of \<open>ex_company\<close>.\<close>

definition site :: "detail_page \<Rightarrow> driver" where
  "site p =
     \<lparr>listing = (\<lambda>u. None),
      detail = (\<lambda>u. if u = url ex_company then Some p else None),
      login_succeeds = True, history = []\<rparr>"

definition quarters_page :: "table_row list \<Rightarrow> detail_page" where
  "quarters_page q_rows =
     \<lparr>price_elem = None, mcap_elem = None, pe_elem = None, sector_elem = None,
      card_tables = None, quarters_tr = Some q_rows\<rparr>"

definition scalar_page :: "elem option \<Rightarrow> elem option \<Rightarrow> elem option \<Rightarrow> elem option \<Rightarrow> detail_page" where
  "scalar_page pr mc pe se =
     \<lparr>price_elem = pr, mcap_elem = mc, pe_elem = pe, sector_elem = se,
      card_tables = Some [], quarters_tr = Some []\<rparr>"

definition table_page :: "card_table list \<Rightarrow> detail_page" where
  "table_page tables =
     \<lparr>price_elem = None, mcap_elem = None, pe_elem = None, sector_elem = None,
      card_tables = Some tables, quarters_tr = None\<rparr>"

definition twelve_rows :: "(string \<times> string \<times> string \<times> elem list) list" where
  "twelve_rows =
     [(''Q01'', ''101'', ''11'', []), (''Q02'', ''102'', ''12'', []), (''Q03'', ''103'', ''13'', []),
      (''Q04'', ''104'', ''14'', []), (''Q05'', ''105'', ''15'', []), (''Q06'', ''106'', ''16'', []),
      (''Q07'', ''107'', ''17'', []), (''Q08'', ''108'', ''18'', []), (''Q09'', ''109'', ''19'', []),
      (''Q10'', ''110'', ''20'', []), (''Q11'', ''111'', ''21'', []), (''Q12'', ''112'', ''22'', [])]"

definition nine_rows :: "table_row list" where
  "nine_rows =
     [Some [Some ''Q01'', Some ''101'', Some ''11''], Some [Some ''Q02'', Some ''102'', Some ''12''],
      Some [Some ''Q03'', Some ''103''], Some [Some ''Q04'', Some ''104'', Some ''14''],
      Some [Some ''Q05'', Some ''105'', Some ''15''], Some [Some ''Q06'', Some ''106'', Some ''16''],
      Some [Some ''Q07'', Some ''107'', Some ''17''], Some [Some ''Q08'', Some ''108'', Some ''18''],
      Some [Some ''Q09'', Some ''109'', Some ''19'']]"

definition failing_page :: detail_page where
  "failing_page =
     \<lparr>price_elem = None, mcap_elem = Some None, pe_elem = None, sector_elem = None,
      card_tables = Some [\<lparr>thead_th = None, tbody_tr = Some [Some [Some ''Sales'', Some ''100'']]\<rparr>,
                          \<lparr>thead_th = Some (Some ''Profit & Loss''), tbody_tr = None\<rparr>],
      quarters_tr = Some [None, Some [Some ''Mar 2024'', Some ''100'']]\<rparr>"

definition net_sales_row :: table_row where
  "net_sales_row = Some [Some ''Net Sales'', Some ''100'', Some ''120'', Some ''140'']"

definition two_tables :: "card_table list" where
  "two_tables =
     [\<lparr>thead_th = Some (Some ''Quarterly Results''),
       tbody_tr = Some [Some [Some ''Net Sales'', Some ''10'', Some ''20''],
                        Some [Some ''Net Profit'', Some ''1'', Some ''2'']]\<rparr>,
      \<lparr>thead_th = Some (Some ''Profit & Loss''),
       tbody_tr = Some [Some [Some ''Net Sales'', Some ''30'', Some ''40''],
                        Some [Some ''Expenses'', Some ''5'', Some ''6'']]\<rparr>]"

definition three_companies :: "company list" where
  "three_companies =
     [\<lparr>name = ''Acme'', url = ''https://www.screener.in/company/ACME/''\<rparr>,
      \<lparr>name = ''Globex'', url = ''https://www.screener.in/company/GLOBEX/''\<rparr>,
      \<lparr>name = ''Initech'', url = ''https://www.screener.in/company/INITECH/''\<rparr>]"

definition batch_driver :: driver where
  "batch_driver =
     \<lparr>listing = (\<lambda>u. None),
      detail = (\<lambda>u. if u = ''https://www.screener.in/company/GLOBEX/'' then None
                     else Some (scalar_page None None None None)),
      login_succeeds = True, history = []\<rparr>"

text \<open>The rows of a watchlist page that lists the given names and links.\<close>

definition listing_of :: "(string \<times> string) list \<Rightarrow> listing_row list" where
  "listing_of cs = map (\<lambda>(n, u). Some \<lparr>anchor_text = Some n, anchor_href = Some (Some u)\<rparr>) cs"

definition watchlist_driver :: driver where
  "watchlist_driver =
     \<lparr>listing = (\<lambda>u.
        if u = ''https://www.screener.in/watchlist/1/''
        then Some (listing_of [(''Acme'', ''/company/ACME/''), (''Globex'', ''/company/GLOBEX/'')])
        else if u = ''https://www.screener.in/watchlist/2/''
        then Some (listing_of [(''Globex'', ''/company/GLOBEX/consolidated/''),
                               (''Initech'', ''/company/INITECH/'')])
        else None),
      detail = (\<lambda>u. None), login_succeeds = True, history = []\<rparr>"

definition two_watchlists :: "(string \<times> string) list" where
  "two_watchlists =
     [(''My Stonks'', ''https://www.screener.in/watchlist/1/''),
      (''Core Watchlist'', ''https://www.screener.in/watchlist/2/'')]"

definition empty_env :: env where
  "empty_env =
     \<lparr>SCREENER_USERNAME = Some ''user'', SCREENER_PASSWORD = Some ''secret'',
      GOOGLE_SHEET_ID = Some ''sheet'', GOOGLE_CREDENTIALS_BASE64 = Some ''e30='',
      MY_STONKS_WATCHLIST_URL = None, CORE_WATCHLIST_URL = Some ''''\<rparr>"

definition listed_env :: env where
  "listed_env =
     \<lparr>SCREENER_USERNAME = Some ''user'', SCREENER_PASSWORD = Some ''secret'',
      GOOGLE_SHEET_ID = Some ''sheet'', GOOGLE_CREDENTIALS_BASE64 = Some ''e30='',
      MY_STONKS_WATCHLIST_URL = Some ''https://www.screener.in/watchlist/9/'',
      CORE_WATCHLIST_URL = None\<rparr>"

section \<open>Properties\<close>

subsection \<open>The string operations\<close>

lemma starts_with_iff:
  "starts_with p s \<longleftrightarrow> (\<exists>suf. s = p @ suf)"
  by (induction p s rule: starts_with.induct) auto

lemma str_in_iff:
  "str_in sub s \<longleftrightarrow> (\<exists>pre suf. s = pre @ sub @ suf)"
proof (induction s)
  case Nil
  show ?case by auto
next
  case (Cons c cs)
  show ?case
  proof
    assume "str_in sub (c # cs)"
    then consider "starts_with sub (c # cs)" | "str_in sub cs"
      by auto
    then show "\<exists>pre suf. c # cs = pre @ sub @ suf"
    proof cases
      case 1
      then obtain suf where "c # cs = sub @ suf"
        by (auto simp: starts_with_iff)
      then have "c # cs = [] @ sub @ suf"
        by simp
      then show ?thesis by blast
    next
      case 2
      then obtain pre suf where "cs = pre @ sub @ suf"
        using Cons.IH by blast
      then have "c # cs = (c # pre) @ sub @ suf"
        by simp
      then show ?thesis by blast
    qed
  next
    assume "\<exists>pre suf. c # cs = pre @ sub @ suf"
    then obtain pre suf where e: "c # cs = pre @ sub @ suf"
      by blast
    show "str_in sub (c # cs)"
    proof (cases pre)
      case Nil
      with e have "starts_with sub (c # cs)"
        by (auto simp: starts_with_iff)
      then show ?thesis by simp
    next
      case (Cons a pre')
      with e have "cs = pre' @ sub @ suf"
        by simp
      then have "str_in sub cs"
        using Cons.IH by blast
      then show ?thesis by simp
    qed
  qed
qed

lemma strip_no_outer_space:
  "strip s \<noteq> [] \<Longrightarrow> \<not> is_space (hd (strip s)) \<and> \<not> is_space (last (strip s))"
proof -
  assume ne: "strip s \<noteq> []"
  let ?t = "dropWhile is_space (rev (dropWhile is_space s))"
  have t: "strip s = rev ?t"
    by (simp add: strip_def)
  with ne have tne: "?t \<noteq> []"
    by simp
  then have 1: "\<not> is_space (hd ?t)"
    by (rule hd_dropWhile)
  from tne obtain ys where ys: "rev (dropWhile is_space s) = ys @ ?t"
    by (metis takeWhile_dropWhile_id)
  have "rev (dropWhile is_space s) \<noteq> []"
    using tne by (metis dropWhile.simps(1))
  then have "dropWhile is_space s \<noteq> []"
    by simp
  then have "\<not> is_space (hd (dropWhile is_space s))"
    by (rule hd_dropWhile)
  moreover have "hd (dropWhile is_space s) = last (rev (dropWhile is_space s))"
    using \<open>dropWhile is_space s \<noteq> []\<close> by (simp add: last_rev)
  moreover have "last (rev (dropWhile is_space s)) = last ?t"
    using ys tne by (metis last_appendR)
  ultimately have 2: "\<not> is_space (last ?t)"
    by simp
  show ?thesis
    using 1 2 tne by (simp add: t hd_rev last_rev)
qed

subsection \<open>Auxiliary facts\<close>

lemma fold_scrape_quarter_row:
  "fold scrape_quarter_row rows qs = qs @ concat (map (\<lambda>r. scrape_quarter_row r []) rows)"
proof (induction rows arbitrary: qs)
  case Nil
  show ?case by simp
next
  case (Cons r rows)
  have step: "scrape_quarter_row r qs = qs @ scrape_quarter_row r []"
    by (simp add: scrape_quarter_row_def split: option.splits)
  have "fold scrape_quarter_row (r # rows) qs = fold scrape_quarter_row rows (scrape_quarter_row r qs)"
    by simp
  also have "\<dots> = scrape_quarter_row r qs @ concat (map (\<lambda>r. scrape_quarter_row r []) rows)"
    by (rule Cons.IH)
  also have "\<dots> = qs @ concat (map (\<lambda>r. scrape_quarter_row r []) (r # rows))"
    by (metis step append.assoc concat.simps(2) list.simps(9))
  finally show ?case .
qed

lemma quarterly_data_store_metric [simp]:
  "quarterly_data (store_metric data l v) = quarterly_data data"
  by (simp add: store_metric_def)

lemma quarterly_data_scrape_row [simp]:
  "quarterly_data (scrape_row r data) = quarterly_data data"
  by (simp add: scrape_row_def split: option.splits)

lemma quarterly_data_fold_scrape_row [simp]:
  "quarterly_data (fold scrape_row rows data) = quarterly_data data"
  by (induction rows arbitrary: data) simp_all

lemma quarterly_data_scrape_table [simp]:
  "quarterly_data (scrape_table t data) = quarterly_data data"
  by (simp add: scrape_table_def split: option.splits)

lemma quarterly_data_fold_scrape_table [simp]:
  "quarterly_data (fold scrape_table ts data) = quarterly_data data"
  by (induction ts arbitrary: data) simp_all

lemma quarterly_data_extract_tables [simp]:
  "quarterly_data (extract_tables p data) = quarterly_data data"
  by (simp add: extract_tables_def split: option.splits)

lemma quarterly_data_extract_basic_info [simp]:
  "quarterly_data (extract_basic_info p data) = quarterly_data data"
  by (simp add: extract_basic_info_def split: option.splits)

lemma scrape_company_data_quarterly:
  assumes "detail d (url c) = Some p"
  shows "\<exists>data. fst (scrape_company_data d c) = Some data \<and>
     quarterly_data data =
       (case quarters_tr p of None \<Rightarrow> []
        | Some q_rows \<Rightarrow> concat (map (\<lambda>r. scrape_quarter_row r []) (take 8 q_rows)))"
  using assms
  by (simp add: scrape_company_data_def extract_quarterly_def initial_data_def
      fold_scrape_quarter_row split: option.splits)

lemma scrape_quarter_row_invalid:
  "\<not> valid_quarter_row r \<Longrightarrow> scrape_quarter_row r [] = []"
  by (auto simp: valid_quarter_row_def scrape_quarter_row_def split: option.splits)

lemma scrape_quarter_row_valid:
  "valid_quarter_row r \<Longrightarrow> length (scrape_quarter_row r []) = 1"
  by (auto simp: valid_quarter_row_def scrape_quarter_row_def split: option.splits)

lemma length_quarter_rows:
  "length (concat (map (\<lambda>r. scrape_quarter_row r []) rows)) = length (filter valid_quarter_row rows)"
proof (induction rows)
  case Nil
  show ?case by simp
next
  case (Cons r rows)
  then show ?case
    by (cases "valid_quarter_row r")
      (simp_all add: scrape_quarter_row_invalid scrape_quarter_row_valid)
qed

lemma scrape_quarter_row_three:
  "scrape_quarter_row (Some (Some a # Some b # Some f # rest)) [] =
     [\<lparr>period = strip a, sales = strip b, profit = strip f\<rparr>]"
  by (simp add: scrape_quarter_row_def)

lemma concat_valid_rows:
  "concat (map (\<lambda>r. scrape_quarter_row r [])
       (map (\<lambda>(a, b, f, rest). Some (Some a # Some b # Some f # rest)) rs)) =
     map (\<lambda>(a, b, f, rest). \<lparr>period = strip a, sales = strip b, profit = strip f\<rparr>) rs"
  by (induction rs) (auto simp: scrape_quarter_row_three)

lemma extract_basic_info_quarters_tr [simp]:
  "extract_basic_info (p\<lparr>quarters_tr := x\<rparr>) data = extract_basic_info p data"
  by (simp add: extract_basic_info_def cong: option.case_cong)

lemma extract_tables_quarters_tr [simp]:
  "extract_tables (p\<lparr>quarters_tr := x\<rparr>) data = extract_tables p data"
  by (simp add: extract_tables_def)

lemma extract_quarterly_take:
  "quarters_tr p = Some q_rows \<Longrightarrow>
   extract_quarterly (p\<lparr>quarters_tr := Some (take 8 q_rows)\<rparr>) data = extract_quarterly p data"
  by (simp add: extract_quarterly_def)

lemma store_metric_shape:
  "\<exists>r q m. store_metric data l v = data\<lparr>revenue_data := r, profit_data := q, margin_data := m\<rparr>"
proof -
  have "data = data\<lparr>revenue_data := revenue_data data, profit_data := profit_data data,
      margin_data := margin_data data\<rparr>"
    by simp
  moreover have "data\<lparr>revenue_data := r\<rparr> =
      data\<lparr>revenue_data := r, profit_data := profit_data data, margin_data := margin_data data\<rparr>" for r
    by simp
  moreover have "data\<lparr>profit_data := q\<rparr> =
      data\<lparr>revenue_data := revenue_data data, profit_data := q, margin_data := margin_data data\<rparr>" for q
    by simp
  moreover have "data\<lparr>margin_data := m\<rparr> =
      data\<lparr>revenue_data := revenue_data data, profit_data := profit_data data, margin_data := m\<rparr>" for m
    by simp
  ultimately show ?thesis
    unfolding store_metric_def by (metis (full_types))
qed

lemma scrape_row_shape:
  "\<exists>r q m. scrape_row row data = data\<lparr>revenue_data := r, profit_data := q, margin_data := m\<rparr>"
proof (cases "read_row row")
  case None
  have "scrape_row row data = data\<lparr>revenue_data := revenue_data data, profit_data := profit_data data,
      margin_data := margin_data data\<rparr>"
    using None by (simp add: scrape_row_def)
  then show ?thesis by blast
next
  case (Some lv)
  then have "scrape_row row data = store_metric data (fst lv) (snd lv)"
    by (simp add: scrape_row_def split: prod.splits)
  then show ?thesis
    using store_metric_shape [of data "fst lv" "snd lv"] by simp
qed

lemma fold_scrape_row_shape:
  "\<exists>r q m. fold scrape_row rows data = data\<lparr>revenue_data := r, profit_data := q, margin_data := m\<rparr>"
proof (induction rows arbitrary: data)
  case Nil
  have "data = data\<lparr>revenue_data := revenue_data data, profit_data := profit_data data,
      margin_data := margin_data data\<rparr>"
    by simp
  then show ?case by (metis fold_simps(1))
next
  case (Cons row rows)
  obtain r q m where 1: "scrape_row row data = data\<lparr>revenue_data := r, profit_data := q, margin_data := m\<rparr>"
    using scrape_row_shape by blast
  obtain r' q' m' where 2: "fold scrape_row rows (scrape_row row data) =
      (scrape_row row data)\<lparr>revenue_data := r', profit_data := q', margin_data := m'\<rparr>"
    using Cons.IH by blast
  have "fold scrape_row (row # rows) data = data\<lparr>revenue_data := r', profit_data := q', margin_data := m'\<rparr>"
    by (simp add: 2) (simp add: 1)
  then show ?case by blast
qed

lemma scrape_table_shape:
  "\<exists>r q m. scrape_table t data = data\<lparr>revenue_data := r, profit_data := q, margin_data := m\<rparr>"
proof -
  have same: "\<exists>r q m. data = data\<lparr>revenue_data := r, profit_data := q, margin_data := m\<rparr>"
    using fold_scrape_row_shape [of "[]" data] by simp
  show ?thesis
    using same fold_scrape_row_shape
    by (simp add: scrape_table_def split: option.splits)
qed

lemma fold_scrape_table_shape:
  "\<exists>r q m. fold scrape_table ts data = data\<lparr>revenue_data := r, profit_data := q, margin_data := m\<rparr>"
proof (induction ts arbitrary: data)
  case Nil
  show ?case using fold_scrape_row_shape [of "[]" data] by simp
next
  case (Cons t ts)
  obtain r q m where 1: "scrape_table t data = data\<lparr>revenue_data := r, profit_data := q, margin_data := m\<rparr>"
    using scrape_table_shape by blast
  obtain r' q' m' where 2: "fold scrape_table ts (scrape_table t data) =
      (scrape_table t data)\<lparr>revenue_data := r', profit_data := q', margin_data := m'\<rparr>"
    using Cons.IH by blast
  have "fold scrape_table (t # ts) data = data\<lparr>revenue_data := r', profit_data := q', margin_data := m'\<rparr>"
    by (simp add: 2) (simp add: 1)
  then show ?case by blast
qed

lemma extract_tables_shape:
  "\<exists>r q m. extract_tables p data = data\<lparr>revenue_data := r, profit_data := q, margin_data := m\<rparr>"
  using fold_scrape_table_shape [of "[]" data] fold_scrape_table_shape
  by (simp add: extract_tables_def split: option.splits)

lemma extract_basic_info_scalars:
  "current_price (extract_basic_info p (initial_data c)) = text_strip (price_elem p) \<and>
   market_cap (extract_basic_info p (initial_data c)) =
     (if text_strip (price_elem p) = None then None else text_strip (mcap_elem p)) \<and>
   pe_ratio (extract_basic_info p (initial_data c)) =
     (if text_strip (price_elem p) = None \<or> text_strip (mcap_elem p) = None then None
      else text_strip (pe_elem p)) \<and>
   sector (extract_basic_info p (initial_data c)) =
     (if text_strip (price_elem p) = None \<or> text_strip (mcap_elem p) = None \<or>
         text_strip (pe_elem p) = None then None
      else text_strip (sector_elem p))"
  by (simp add: extract_basic_info_def initial_data_def split: option.splits)

lemma fold_scrape_row_unread:
  "list_all (\<lambda>r. read_row r = None) rows \<Longrightarrow> fold scrape_row rows data = data"
  by (induction rows) (simp_all add: scrape_row_def)

lemma scrape_table_raises:
  "table_raises t \<Longrightarrow> scrape_table t data = data"
  by (auto simp: table_raises_def scrape_table_def fold_scrape_row_unread split: option.splits)

lemma fold_scrape_table_raises:
  "list_all table_raises ts \<Longrightarrow> fold scrape_table ts data = data"
  by (induction ts) (simp_all add: scrape_table_raises)

lemma fold_scrape_quarter_row_invalid:
  "list_all (\<lambda>r. \<not> valid_quarter_row r) rows \<Longrightarrow> fold scrape_quarter_row rows [] = []"
  by (induction rows) (simp_all add: scrape_quarter_row_invalid)

lemma all_extraction_raises_initial:
  assumes "all_extraction_raises p"
  shows "extract_quarterly p (extract_tables p (extract_basic_info p (initial_data c))) = initial_data c"
proof -
  have b: "extract_basic_info p (initial_data c) = initial_data c"
    using assms by (simp add: all_extraction_raises_def extract_basic_info_def)
  have t: "extract_tables p (initial_data c) = initial_data c"
    using assms
    by (simp add: all_extraction_raises_def extract_tables_def fold_scrape_table_raises
        split: option.splits)
  have q: "extract_quarterly p (initial_data c) = initial_data c"
    using assms
    by (simp add: all_extraction_raises_def extract_quarterly_def fold_scrape_quarter_row_invalid
        initial_data_def split: option.splits)
  show ?thesis by (simp add: b t q)
qed

lemma store_metric_series:
  "series_of l = Some s \<Longrightarrow>
     series_data s (store_metric data l v) = AList.update l v (series_data s data)"
  by (cases s) (auto simp: series_of_def store_metric_def split: if_splits)

lemma store_metric_other:
  "series_of l \<noteq> Some s \<Longrightarrow> series_data s (store_metric data l v) = series_data s data"
  by (cases s) (auto simp: series_of_def store_metric_def split: if_splits)

lemma store_metric_ignored:
  "series_of l = None \<Longrightarrow> store_metric data l v = data"
  by (auto simp: series_of_def store_metric_def split: if_splits)

lemma fold_invariant:
  "(\<And>x a. P a \<Longrightarrow> P (f x a)) \<Longrightarrow> P a \<Longrightarrow> P (fold f xs a)"
  by (induction xs arbitrary: a) simp_all

lemma cell_values_readable:
  "cell_values (map Some texts) = Some (map strip texts)"
  by (induction texts) simp_all

lemma read_row_readable:
  "texts \<noteq> [] \<Longrightarrow> read_row (Some (Some t # map Some texts)) = Some (strip t, map strip texts)"
  by (cases texts) (simp_all add: read_row_def cell_values_readable)

lemma read_row_short:
  "length cells < 2 \<Longrightarrow> read_row (Some cells) = None"
  by (simp add: read_row_def)

lemma fold_scrape_table_rows:
  "fold scrape_table ts data = fold scrape_row (scanned_rows ts) data"
proof (induction ts arbitrary: data)
  case Nil
  show ?case by (simp add: scanned_rows_def)
next
  case (Cons t ts)
  have "scanned_rows (t # ts) = scanned_rows [t] @ scanned_rows ts"
    by (simp add: scanned_rows_def)
  moreover have "scrape_table t data = fold scrape_row (scanned_rows [t]) data"
    by (simp add: scrape_table_def scanned_rows_def split: option.splits)
  ultimately show ?case by (simp add: Cons.IH)
qed

lemma series_data_shape [simp]:
  "series_data s (data\<lparr>quarterly_data := q\<rparr>) = series_data s data"
  "series_data s (data\<lparr>current_price := a\<rparr>) = series_data s data"
  "series_data s (data\<lparr>market_cap := a\<rparr>) = series_data s data"
  "series_data s (data\<lparr>pe_ratio := a\<rparr>) = series_data s data"
  "series_data s (data\<lparr>sector := a\<rparr>) = series_data s data"
  by (cases s; simp)+

lemma series_data_extract_quarterly [simp]:
  "series_data s (extract_quarterly p data) = series_data s data"
  by (simp add: extract_quarterly_def split: option.splits)

lemma series_data_extract_basic_info [simp]:
  "series_data s (extract_basic_info p data) = series_data s data"
  by (simp add: extract_basic_info_def split: option.splits)

lemma series_data_initial [simp]:
  "series_data s (initial_data c) = []"
  by (cases s) (simp_all add: initial_data_def)

lemma scrape_company_data_series:
  assumes "detail d (url c) = Some p"
  shows "\<exists>data. fst (scrape_company_data d c) = Some data \<and>
     (\<forall>s. series_data s data =
        series_data s (extract_tables p (extract_basic_info p (initial_data c))))"
  using assms by (simp add: scrape_company_data_def)

lemma store_metric_filed:
  assumes "\<forall>s k. k \<in> fst ` set (series_data s data) \<longrightarrow> series_of k = Some s"
  shows "\<forall>s k. k \<in> fst ` set (series_data s (store_metric data l v)) \<longrightarrow> series_of k = Some s"
proof (intro allI impI)
  fix s k assume k: "k \<in> fst ` set (series_data s (store_metric data l v))"
  show "series_of k = Some s"
  proof (cases "series_of l = Some s")
    case True
    then have "k \<in> {l} \<union> fst ` set (series_data s data)"
      using k by (simp only: store_metric_series AList.dom_update)
    then show ?thesis using True assms by blast
  next
    case False
    then show ?thesis using k assms by (simp add: store_metric_other)
  qed
qed

lemma scrape_row_filed:
  assumes "\<forall>s k. k \<in> fst ` set (series_data s data) \<longrightarrow> series_of k = Some s"
  shows "\<forall>s k. k \<in> fst ` set (series_data s (scrape_row row data)) \<longrightarrow> series_of k = Some s"
proof (cases "read_row row")
  case None
  then show ?thesis using assms by (simp add: scrape_row_def)
next
  case (Some lv)
  then have "scrape_row row data = store_metric data (fst lv) (snd lv)"
    by (simp add: scrape_row_def split: prod.splits)
  then show ?thesis using store_metric_filed [OF assms] by simp
qed

lemma extract_tables_rows:
  "extract_tables p data =
     (case card_tables p of None \<Rightarrow> data | Some ts \<Rightarrow> fold scrape_row (scanned_rows ts) data)"
  by (simp add: extract_tables_def fold_scrape_table_rows split: option.splits)

lemma extract_tables_filed:
  assumes "\<forall>s k. k \<in> fst ` set (series_data s data) \<longrightarrow> series_of k = Some s"
  shows "\<forall>s k. k \<in> fst ` set (series_data s (extract_tables p data)) \<longrightarrow> series_of k = Some s"
proof (cases "card_tables p")
  case None
  then show ?thesis using assms by (simp add: extract_tables_rows)
next
  case (Some ts)
  let ?P = "\<lambda>a. \<forall>s k. k \<in> fst ` set (series_data s a) \<longrightarrow> series_of k = Some s"
  have "?P (fold scrape_row (scanned_rows ts) data)"
  proof (rule fold_invariant [where P = ?P])
    show "?P (scrape_row x a)" if "?P a" for x a
      using that by (rule scrape_row_filed)
    show "?P data"
      by (rule assms)
  qed
  then show ?thesis using Some by (simp add: extract_tables_rows)
qed

lemma record_filed:
  assumes "fst (scrape_company_data d c) = Some data" and "k \<in> fst ` set (series_data s data)"
  shows "series_of k = Some s"
proof -
  from assms(1) obtain p where p: "detail d (url c) = Some p"
    by (auto simp: scrape_company_data_def split: option.splits)
  from scrape_company_data_series [OF p] assms(1)
  have eq: "series_data s data = series_data s (extract_tables p (extract_basic_info p (initial_data c)))"
    by auto
  have "\<forall>s k. k \<in> fst ` set (series_data s (extract_basic_info p (initial_data c))) \<longrightarrow>
      series_of k = Some s"
    by simp
  from extract_tables_filed [OF this]
  have inv: "\<forall>s k. k \<in> fst ` set (series_data s
      (extract_tables p (extract_basic_info p (initial_data c)))) \<longrightarrow> series_of k = Some s" .
  from assms(2) have "k \<in> fst ` set (series_data s
      (extract_tables p (extract_basic_info p (initial_data c))))"
    unfolding eq .
  with inv show ?thesis by blast
qed

lemma scrape_row_stores:
  assumes "read_row row = Some (l, v)" and "series_of l = Some s"
  shows "series_data s (scrape_row row data) = AList.update l v (series_data s data)"
  using assms by (simp add: scrape_row_def store_metric_series)

lemma scrape_row_other_series:
  assumes "read_row row = Some (l, v)" and "series_of l \<noteq> Some s"
  shows "series_data s (scrape_row row data) = series_data s data"
  using assms by (simp add: scrape_row_def store_metric_other)

lemma scrape_row_skips:
  "read_row row = None \<Longrightarrow> scrape_row row data = data"
  by (simp add: scrape_row_def)

lemma scrape_row_keeps:
  assumes "\<forall>v'. read_row r \<noteq> Some (l, v')"
  shows "map_of (series_data s (scrape_row r data)) l = map_of (series_data s data) l"
proof (cases "read_row r")
  case None
  then show ?thesis by (simp add: scrape_row_skips)
next
  case (Some lv)
  obtain l' v' where lv: "lv = (l', v')"
    by (cases lv)
  with Some assms have neq: "l' \<noteq> l"
    by auto
  show ?thesis
  proof (cases "series_of l' = Some s")
    case True
    with Some lv have "series_data s (scrape_row r data) = AList.update l' v' (series_data s data)"
      by (simp add: scrape_row_stores)
    then show ?thesis using neq by (simp add: AList.update_conv')
  next
    case False
    with Some lv have "series_data s (scrape_row r data) = series_data s data"
      by (simp add: scrape_row_other_series)
    then show ?thesis by simp
  qed
qed

lemma fold_scrape_row_keeps:
  "\<forall>r \<in> set rows. \<forall>v'. read_row r \<noteq> Some (l, v') \<Longrightarrow>
   map_of (series_data s (fold scrape_row rows data)) l = map_of (series_data s data) l"
proof (induction rows arbitrary: data)
  case Nil
  show ?case by simp
next
  case (Cons r rows)
  have "map_of (series_data s (fold scrape_row rows (scrape_row r data))) l =
      map_of (series_data s (scrape_row r data)) l"
    using Cons.prems by (intro Cons.IH) simp
  also have "\<dots> = map_of (series_data s data) l"
    using Cons.prems by (intro scrape_row_keeps) simp
  finally show ?case by simp
qed

lemma scrape_row_distinct:
  assumes "\<forall>s. distinct (map fst (series_data s data))"
  shows "\<forall>s. distinct (map fst (series_data s (scrape_row r data)))"
proof
  fix s
  show "distinct (map fst (series_data s (scrape_row r data)))"
  proof (cases "read_row r")
    case None
    then show ?thesis using assms by (simp add: scrape_row_skips)
  next
    case (Some lv)
    obtain l v where lv: "lv = (l, v)"
      by (cases lv)
    show ?thesis
    proof (cases "series_of l = Some s")
      case True
      with Some lv have "series_data s (scrape_row r data) = AList.update l v (series_data s data)"
        by (simp add: scrape_row_stores)
      then show ?thesis using assms by (simp add: AList.distinct_update)
    next
      case False
      with Some lv have "series_data s (scrape_row r data) = series_data s data"
        by (simp add: scrape_row_other_series)
      then show ?thesis using assms by simp
    qed
  qed
qed

lemma fold_scrape_row_distinct:
  assumes "\<forall>s. distinct (map fst (series_data s data))"
  shows "\<forall>s. distinct (map fst (series_data s (fold scrape_row rows data)))"
proof (rule fold_invariant [where P = "\<lambda>a. \<forall>s. distinct (map fst (series_data s a))"])
  show "\<forall>s. distinct (map fst (series_data s (scrape_row x a)))"
    if "\<forall>s. distinct (map fst (series_data s a))" for x a
    using that by (rule scrape_row_distinct)
  show "\<forall>s. distinct (map fst (series_data s data))"
    by (rule assms)
qed

lemma filter_key_distinct:
  "distinct (map fst al) \<Longrightarrow> map_of al l = Some v \<Longrightarrow> filter (\<lambda>e. fst e = l) al = [(l, v)]"
proof (induction al)
  case Nil
  then show ?case by simp
next
  case (Cons e al)
  show ?case
  proof (cases "fst e = l")
    case True
    with Cons.prems have "l \<notin> fst ` set al" and "e = (l, v)"
      by (auto simp: prod_eq_iff)
    then have "filter (\<lambda>e. fst e = l) al = []"
      by (auto simp: filter_empty_conv)
    with \<open>e = (l, v)\<close> show ?thesis by simp
  next
    case False
    with Cons show ?thesis by simp
  qed
qed

lemma scrape_company_data_driver:
  "snd (scrape_company_data d c) = driver_get d (url c)"
  by (simp add: scrape_company_data_def split: option.splits)

lemma scrape_company_data_detail:
  "detail d' = detail d \<Longrightarrow> fst (scrape_company_data d' c) = fst (scrape_company_data d c)"
  by (simp add: scrape_company_data_def split: option.splits)

lemma detail_driver_get [simp]:
  "detail (driver_get d u) = detail d"
  by (simp add: driver_get_def)

lemma map_filter_detail:
  "detail d' = detail d \<Longrightarrow>
   List.map_filter (\<lambda>c. fst (scrape_company_data d' c)) cs =
   List.map_filter (\<lambda>c. fst (scrape_company_data d c)) cs"
  by (simp add: scrape_company_data_detail [of d' d])

lemma scrape_loop_eq:
  "scrape_loop cs d all_data n =
     ((all_data @ List.map_filter (\<lambda>c. fst (scrape_company_data d c)) cs,
       n + length (List.map_filter (\<lambda>c. fst (scrape_company_data d c)) cs)),
      d\<lparr>history := history d @ map url cs\<rparr>)"
proof (induction cs arbitrary: d all_data n)
  case Nil
  show ?case by (simp add: List.map_filter_simps)
next
  case (Cons c cs)
  let ?d' = "driver_get d (url c)"
  have d': "snd (scrape_company_data d c) = ?d'"
    by (rule scrape_company_data_driver)
  have mf: "List.map_filter (\<lambda>c. fst (scrape_company_data ?d' c)) cs =
      List.map_filter (\<lambda>c. fst (scrape_company_data d c)) cs"
    by (rule map_filter_detail) simp
  have h: "?d'\<lparr>history := history ?d' @ map url cs\<rparr> = d\<lparr>history := history d @ map url (c # cs)\<rparr>"
    by (simp add: driver_get_def)
  show ?case
  proof (cases "fst (scrape_company_data d c)")
    case None
    with d' have "scrape_company_data d c = (None, ?d')"
      by (simp add: prod_eq_iff)
    then have "scrape_loop (c # cs) d all_data n = scrape_loop cs ?d' all_data n"
      by simp
    then show ?thesis
      unfolding Cons.IH mf h using None by (simp add: List.map_filter_simps)
  next
    case (Some data)
    with d' have "scrape_company_data d c = (Some data, ?d')"
      by (simp add: prod_eq_iff)
    then have "scrape_loop (c # cs) d all_data n = scrape_loop cs ?d' (all_data @ [data]) (Suc n)"
      by simp
    then show ?thesis
      unfolding Cons.IH mf h using Some by (simp add: List.map_filter_simps)
  qed
qed

lemma scrape_company_data_identity:
  assumes "fst (scrape_company_data d c) = Some data"
  shows "name data = name c \<and> url data = url c"
proof -
  from assms obtain p where p: "detail d (url c) = Some p"
    by (auto simp: scrape_company_data_def split: option.splits)
  let ?b = "extract_basic_info p (initial_data c)"
  obtain r q m where t: "extract_tables p ?b = ?b\<lparr>revenue_data := r, profit_data := q, margin_data := m\<rparr>"
    using extract_tables_shape by blast
  have b: "name ?b = name c \<and> url ?b = url c"
    by (simp add: extract_basic_info_def initial_data_def split: option.splits)
  have "name (extract_quarterly p (extract_tables p ?b)) = name c"
    "url (extract_quarterly p (extract_tables p ?b)) = url c"
    using b by (simp_all add: t extract_quarterly_def split: option.splits)
  moreover have "data = extract_quarterly p (extract_tables p ?b)"
    using assms p by (simp add: scrape_company_data_def)
  ultimately show ?thesis by simp
qed

lemma map_filter_names:
  "map name (List.map_filter (\<lambda>c. fst (scrape_company_data d c)) cs) =
   map name (filter (\<lambda>c. fst (scrape_company_data d c) \<noteq> None) cs)"
proof (induction cs)
  case Nil
  show ?case by (simp add: List.map_filter_simps)
next
  case (Cons c cs)
  then show ?case
    by (cases "fst (scrape_company_data d c)")
      (simp_all add: List.map_filter_simps scrape_company_data_identity)
qed

lemma length_map_filter_split:
  "length (List.map_filter f xs) + length (filter (\<lambda>x. f x = None) xs) = length xs"
  by (induction xs) (auto simp: List.map_filter_simps split: option.splits)

lemma add_companies_eq:
  "add_companies cs all_companies seen =
     (all_companies @ first_seen seen cs, seen \<union> name ` set cs)"
  by (induction cs arbitrary: all_companies seen) (auto simp: insert_absorb)

lemma first_seen_append:
  "first_seen seen (xs @ ys) = first_seen seen xs @ first_seen (seen \<union> name ` set xs) ys"
  by (induction xs arbitrary: seen) (auto simp: insert_absorb)

lemma scrape_watchlist_companies_listing:
  "listing d' = listing d \<Longrightarrow>
   fst (scrape_watchlist_companies d' u) = fst (scrape_watchlist_companies d u)"
  by (simp add: scrape_watchlist_companies_def split: option.splits)

lemma listing_scrape_watchlist_companies [simp]:
  "listing (snd (scrape_watchlist_companies d u)) = listing d"
  by (simp add: scrape_watchlist_companies_def driver_get_def split: option.splits)

lemma history_scrape_watchlist_companies:
  "history (snd (scrape_watchlist_companies d u)) = history d @ (if u = [] then [] else [u])"
  by (simp add: scrape_watchlist_companies_def driver_get_def split: option.splits)

lemma scrape_watchlist_companies_empty [simp]:
  "fst (scrape_watchlist_companies d []) = []"
  by (simp add: scrape_watchlist_companies_def)

lemma collect_watchlists_eq:
  "fst (collect_watchlists ws d all_companies seen) =
     all_companies @
     first_seen seen (concat (map (\<lambda>(label, u). fst (scrape_watchlist_companies d u)) ws))"
proof (induction ws arbitrary: d all_companies seen)
  case Nil
  show ?case by simp
next
  case (Cons w ws)
  obtain label u where w: "w = (label, u)"
    by (cases w)
  show ?case
  proof (cases "u = []")
    case True
    then show ?thesis using w by (simp add: Cons.IH)
  next
    case False
    let ?d' = "snd (scrape_watchlist_companies d u)"
    let ?cs = "fst (scrape_watchlist_companies d u)"
    have same: "map (\<lambda>(label, u). fst (scrape_watchlist_companies ?d' u)) ws =
        map (\<lambda>(label, u). fst (scrape_watchlist_companies d u)) ws"
      by (simp add: scrape_watchlist_companies_listing [of ?d' d] split_def)
    have "collect_watchlists (w # ws) d all_companies seen =
        collect_watchlists ws ?d' (all_companies @ first_seen seen ?cs) (seen \<union> name ` set ?cs)"
      using False w by (simp add: add_companies_eq split_def)
    then show ?thesis
      using w by (simp add: Cons.IH same first_seen_append)
  qed
qed

lemma collect_watchlists_history:
  "history (snd (collect_watchlists ws d all_companies seen)) =
     history d @ filter (\<lambda>u. u \<noteq> []) (map snd ws)"
proof (induction ws arbitrary: d all_companies seen)
  case Nil
  show ?case by simp
next
  case (Cons w ws)
  obtain label u where w: "w = (label, u)"
    by (cases w)
  show ?case
    using w by (simp add: Cons.IH split_def history_scrape_watchlist_companies)
qed

lemma first_seen_names:
  "name ` set (first_seen seen cs) = name ` set cs - seen"
  by (induction cs arbitrary: seen) auto

lemma first_seen_distinct:
  "distinct (map name (first_seen seen cs))"
  by (induction cs arbitrary: seen) (auto simp: first_seen_names)

lemma first_seen_index:
  "first_seen seen cs =
     map (\<lambda>i. cs ! i) (filter (\<lambda>i. name (cs ! i) \<notin> seen \<union> name ` set (take i cs)) [0..<length cs])"
proof (induction cs arbitrary: seen)
  case Nil
  show ?case by simp
next
  case (Cons c cs)
  have upt: "[0..<length (c # cs)] = 0 # map Suc [0..<length cs]"
    by (simp add: upt_conv_Cons map_Suc_upt del: upt_Suc)
  have tail: "map (\<lambda>i. (c # cs) ! i)
        (filter (\<lambda>i. name ((c # cs) ! i) \<notin> seen \<union> name ` set (take i (c # cs)))
          (map Suc [0..<length cs])) =
      map (\<lambda>i. cs ! i)
        (filter (\<lambda>i. name (cs ! i) \<notin> insert (name c) seen \<union> name ` set (take i cs)) [0..<length cs])"
    by (simp add: filter_map comp_def conj_ac)
  show ?case
  proof (cases "name c \<in> seen")
    case True
    then have "insert (name c) seen = seen"
      by auto
    with True show ?thesis
      unfolding upt using tail by (simp add: Cons.IH)
  next
    case False
    then show ?thesis
      unfolding upt using tail by (simp add: Cons.IH)
  qed
qed

lemma first_seen_find:
  "c \<in> set (first_seen seen cs) \<Longrightarrow> List.find (\<lambda>x. name x = name c) cs = Some c"
proof (induction cs arbitrary: seen)
  case Nil
  then show ?case by simp
next
  case (Cons a cs)
  show ?case
  proof (cases "name a \<in> seen")
    case True
    with Cons.prems have c: "c \<in> set (first_seen seen cs)"
      by simp
    then have "name c \<in> name ` set cs - seen"
      using first_seen_names [of seen cs] by blast
    with True have "name a \<noteq> name c"
      by auto
    then show ?thesis using Cons.IH [OF c] by simp
  next
    case False
    show ?thesis
    proof (cases "c = a")
      case True
      then show ?thesis by simp
    next
      case neq: False
      with False Cons.prems have c: "c \<in> set (first_seen (insert (name a) seen) cs)"
        by simp
      then have "name c \<in> name ` set cs - insert (name a) seen"
        using first_seen_names [of "insert (name a) seen" cs] by blast
      then have "name a \<noteq> name c"
        by auto
      then show ?thesis using Cons.IH [OF c] by simp
    qed
  qed
qed

lemma get_all_watchlist_companies_history:
  "history (snd (get_all_watchlist_companies d ws)) = history d @ filter (\<lambda>u. u \<noteq> []) (map snd ws)"
  by (simp add: get_all_watchlist_companies_def collect_watchlists_history)

lemma scrape_row_keys_mono:
  "fst ` set (series_data s data) \<subseteq> fst ` set (series_data s (scrape_row r data))"
proof (cases "read_row r")
  case None
  then show ?thesis by (simp add: scrape_row_skips)
next
  case (Some lv)
  obtain l v where lv: "lv = (l, v)"
    by (cases lv)
  show ?thesis
  proof (cases "series_of l = Some s")
    case True
    with Some lv have "series_data s (scrape_row r data) = AList.update l v (series_data s data)"
      by (simp add: scrape_row_stores)
    then show ?thesis by (simp only: AList.dom_update) blast
  next
    case False
    with Some lv have "series_data s (scrape_row r data) = series_data s data"
      by (simp add: scrape_row_other_series)
    then show ?thesis by simp
  qed
qed

lemma fold_scrape_row_keys_mono:
  "fst ` set (series_data s data) \<subseteq> fst ` set (series_data s (fold scrape_row rows data))"
proof (induction rows arbitrary: data)
  case Nil
  show ?case by simp
next
  case (Cons r rows)
  have "fst ` set (series_data s data) \<subseteq> fst ` set (series_data s (scrape_row r data))"
    by (rule scrape_row_keys_mono)
  also have "\<dots> \<subseteq> fst ` set (series_data s (fold scrape_row rows (scrape_row r data)))"
    by (rule Cons.IH)
  finally show ?case by simp
qed

lemma record_row_filed:
  assumes "detail d (url c) = Some p" and "card_tables p = Some ts"
    and "scanned_rows ts = pre @ r # post"
    and "read_row r = Some (l, v)" and "series_of l = Some s"
  shows "\<exists>rec. fst (scrape_company_data d c) = Some rec \<and>
     l \<in> fst ` set (series_data s rec) \<and>
     ((\<forall>r' \<in> set post. \<forall>v'. read_row r' \<noteq> Some (l, v')) \<longrightarrow>
        map_of (series_data s rec) l = Some v)"
proof -
  let ?b = "extract_basic_info p (initial_data c)"
  let ?t = "extract_tables p ?b"
  let ?m = "scrape_row r (fold scrape_row pre ?b)"
  from scrape_company_data_series [OF assms(1)] obtain rec
    where rec: "fst (scrape_company_data d c) = Some rec"
      and ser: "\<forall>s. series_data s rec = series_data s ?t"
    by blast
  have t: "?t = fold scrape_row post ?m"
    using assms(2,3) by (simp add: extract_tables_rows)
  have m: "series_data s ?m = AList.update l v (series_data s (fold scrape_row pre ?b))"
    by (rule scrape_row_stores [OF assms(4,5)])
  have "l \<in> fst ` set (series_data s ?m)"
    unfolding m by (simp only: AList.dom_update) blast
  then have key: "l \<in> fst ` set (series_data s ?t)"
    unfolding t using fold_scrape_row_keys_mono [of s ?m post] by blast
  have last: "map_of (series_data s ?t) l = Some v"
    if "\<forall>r' \<in> set post. \<forall>v'. read_row r' \<noteq> Some (l, v')"
  proof -
    have "map_of (series_data s ?t) l = map_of (series_data s ?m) l"
      unfolding t by (rule fold_scrape_row_keeps [OF that])
    also have "\<dots> = Some v"
      unfolding m by (simp add: AList.update_conv')
    finally show ?thesis .
  qed
  from rec key last ser show ?thesis
    by (intro exI [of _ rec]) simp
qed

subsection \<open>The claims\<close>

text \<open>
  Claim C1, as amended. The four scalar fields are read in the order price, market
  cap, P/E, sector inside one \<^verbatim>\<open>try\<close> block: a field is populated exactly when its own
  extraction and that of every field before it succeed; the first field that raises and
  all the fields after it are absent.
\<close>

theorem basic_info_sequential:
  assumes "detail d (url c) = Some p"
  shows "\<exists>data. fst (scrape_company_data d c) = Some data \<and>
     current_price data = text_strip (price_elem p) \<and>
     market_cap data =
       (if text_strip (price_elem p) = None then None else text_strip (mcap_elem p)) \<and>
     pe_ratio data =
       (if text_strip (price_elem p) = None \<or> text_strip (mcap_elem p) = None then None
        else text_strip (pe_elem p)) \<and>
     sector data =
       (if text_strip (price_elem p) = None \<or> text_strip (mcap_elem p) = None \<or>
           text_strip (pe_elem p) = None then None
        else text_strip (sector_elem p))"
proof -
  let ?b = "extract_basic_info p (initial_data c)"
  obtain r q m where t: "extract_tables p ?b = ?b\<lparr>revenue_data := r, profit_data := q, margin_data := m\<rparr>"
    using extract_tables_shape by blast
  let ?data = "extract_quarterly p (extract_tables p ?b)"
  have res: "fst (scrape_company_data d c) = Some ?data"
    using assms by (simp add: scrape_company_data_def)
  have "current_price ?data = current_price ?b" "market_cap ?data = market_cap ?b"
    "pe_ratio ?data = pe_ratio ?b" "sector ?data = sector ?b"
    by (simp_all add: t extract_quarterly_def split: option.splits)
  with res show ?thesis
    using extract_basic_info_scalars [of p c] by simp
qed

theorem basic_info_sequential_witness:
  "detail (site (scalar_page (Some (Some ''1,520'')) (Some (Some ''48,000 Cr.'')) None (Some (Some ''IT''))))
      (url ex_company) =
     Some (scalar_page (Some (Some ''1,520'')) (Some (Some ''48,000 Cr.'')) None (Some (Some ''IT''))) \<and>
   (\<exists>data. fst (scrape_company_data
        (site (scalar_page (Some (Some ''1,520'')) (Some (Some ''48,000 Cr.'')) None (Some (Some ''IT''))))
        ex_company) = Some data \<and>
      current_price data = Some ''1,520'' \<and> market_cap data = Some ''48,000 Cr.'' \<and>
      pe_ratio data = None \<and> sector data = None)"
proof -
  let ?p = "scalar_page (Some (Some ''1,520'')) (Some (Some ''48,000 Cr.'')) None (Some (Some ''IT''))"
  have h: "detail (site ?p) (url ex_company) = Some ?p"
    by (simp add: site_def)
  show ?thesis
    using h basic_info_sequential [OF h]
    by (simp add: scalar_page_def text_strip_def strip_def is_space_def)
qed

text \<open>
  Claim C1 as stated fails: on a page where only the price raises, market cap, P/E and
  sector are absent from the record although their elements can be read.
\<close>

theorem scalar_fields_not_independent:
  "text_strip (price_elem (scalar_page None (Some (Some ''48,000 Cr.'')) (Some (Some ''25.3'')) (Some (Some ''IT'')))) = None \<and>
   text_strip (mcap_elem (scalar_page None (Some (Some ''48,000 Cr.'')) (Some (Some ''25.3'')) (Some (Some ''IT'')))) = Some ''48,000 Cr.'' \<and>
   text_strip (pe_elem (scalar_page None (Some (Some ''48,000 Cr.'')) (Some (Some ''25.3'')) (Some (Some ''IT'')))) = Some ''25.3'' \<and>
   text_strip (sector_elem (scalar_page None (Some (Some ''48,000 Cr.'')) (Some (Some ''25.3'')) (Some (Some ''IT'')))) = Some ''IT'' \<and>
   map_option market_cap (fst (scrape_company_data
      (site (scalar_page None (Some (Some ''48,000 Cr.'')) (Some (Some ''25.3'')) (Some (Some ''IT''))))
      ex_company)) = Some None \<and>
   map_option pe_ratio (fst (scrape_company_data
      (site (scalar_page None (Some (Some ''48,000 Cr.'')) (Some (Some ''25.3'')) (Some (Some ''IT''))))
      ex_company)) = Some None \<and>
   map_option sector (fst (scrape_company_data
      (site (scalar_page None (Some (Some ''48,000 Cr.'')) (Some (Some ''25.3'')) (Some (Some ''IT''))))
      ex_company)) = Some None"
  by (simp add: scrape_company_data_def site_def scalar_page_def text_strip_def strip_def
      is_space_def extract_basic_info_def extract_tables_def extract_quarterly_def initial_data_def)

text \<open>
  Claim C2. Let \<open>cs\<close> be the companies that the watchlists yield, in list order and
  then row order. The list collector returns the companies of \<open>cs\<close> whose name does
  not occur earlier in \<open>cs\<close>, in the order of \<open>cs\<close>: every name of \<open>cs\<close> occurs exactly
  once in the result, and the company kept for a name is the first one of \<open>cs\<close> with
  that name, unchanged.
\<close>

theorem first_occurrence_kept:
  assumes "cs = concat (map (\<lambda>(label, u). fst (scrape_watchlist_companies d u)) watchlists)"
    and "out = fst (get_all_watchlist_companies d watchlists)"
  shows "distinct (map name out) \<and>
     name ` set out = name ` set cs \<and>
     out = map (\<lambda>i. cs ! i) (filter (\<lambda>i. name (cs ! i) \<notin> name ` set (take i cs)) [0..<length cs]) \<and>
     (\<forall>c \<in> set out. List.find (\<lambda>x. name x = name c) cs = Some c)"
proof -
  have out: "out = first_seen {} cs"
    unfolding assms by (simp add: get_all_watchlist_companies_def collect_watchlists_eq)
  have "distinct (map name out)"
    unfolding out by (rule first_seen_distinct)
  moreover have "name ` set out = name ` set cs"
    unfolding out by (simp add: first_seen_names)
  moreover have "out = map (\<lambda>i. cs ! i)
      (filter (\<lambda>i. name (cs ! i) \<notin> name ` set (take i cs)) [0..<length cs])"
    unfolding out using first_seen_index [of "{}" cs] by simp
  moreover have "\<forall>c \<in> set out. List.find (\<lambda>x. name x = name c) cs = Some c"
    unfolding out using first_seen_find by blast
  ultimately show ?thesis by (intro conjI)
qed

theorem first_occurrence_kept_witness:
  "concat (map (\<lambda>(label, u). fst (scrape_watchlist_companies watchlist_driver u)) two_watchlists) =
     [\<lparr>name = ''Acme'', url = ''/company/ACME/''\<rparr>, \<lparr>name = ''Globex'', url = ''/company/GLOBEX/''\<rparr>,
      \<lparr>name = ''Globex'', url = ''/company/GLOBEX/consolidated/''\<rparr>,
      \<lparr>name = ''Initech'', url = ''/company/INITECH/''\<rparr>] \<and>
   fst (get_all_watchlist_companies watchlist_driver two_watchlists) =
     [\<lparr>name = ''Acme'', url = ''/company/ACME/''\<rparr>, \<lparr>name = ''Globex'', url = ''/company/GLOBEX/''\<rparr>,
      \<lparr>name = ''Initech'', url = ''/company/INITECH/''\<rparr>]"
proof -
  let ?cs = "[\<lparr>name = ''Acme'', url = ''/company/ACME/''\<rparr>, \<lparr>name = ''Globex'', url = ''/company/GLOBEX/''\<rparr>,
      \<lparr>name = ''Globex'', url = ''/company/GLOBEX/consolidated/''\<rparr>,
      \<lparr>name = ''Initech'', url = ''/company/INITECH/''\<rparr>]"
  have cs: "?cs = concat (map (\<lambda>(label, u). fst (scrape_watchlist_companies watchlist_driver u)) two_watchlists)"
    by (simp add: two_watchlists_def watchlist_driver_def scrape_watchlist_companies_def
        listing_of_def scrape_listing_row_def strip_def is_space_def)
  have idx: "filter (\<lambda>i. name (?cs ! i) \<notin> name ` set (take i ?cs)) [0..<length ?cs] = [0, 1, 3]"
    by (simp add: upt_conv_Cons take_Suc_conv_app_nth del: upt_Suc)
  from first_occurrence_kept [OF cs refl]
  have "fst (get_all_watchlist_companies watchlist_driver two_watchlists) =
      map (\<lambda>i. ?cs ! i) (filter (\<lambda>i. name (?cs ! i) \<notin> name ` set (take i ?cs)) [0..<length ?cs])"
    by (rule conjunct1 [OF conjunct2 [OF conjunct2]])
  then have "fst (get_all_watchlist_companies watchlist_driver two_watchlists) =
     [\<lparr>name = ''Acme'', url = ''/company/ACME/''\<rparr>, \<lparr>name = ''Globex'', url = ''/company/GLOBEX/''\<rparr>,
      \<lparr>name = ''Initech'', url = ''/company/INITECH/''\<rparr>]"
    unfolding idx by simp
  with cs show ?thesis by simp
qed

text \<open>
  Claim C3. The label of a row is classified by the first test that matches, in the
  order Sales/Revenue, Operating Profit/EBITDA, Net Profit, margin (the last one without
  regard to case). A row whose label contains both \<open>Sales\<close> and \<open>margin\<close> is filed under
  the revenue series and leaves the margin series as it was. In the record of a company
  page that has such a row, the label is a key of the revenue series, with the values of
  that row when no later row has the same label, and it is never a key of the margin
  series.
\<close>

theorem sales_label_filed_under_revenue:
  "(str_in ''Sales'' l \<or> str_in ''Revenue'' l \<longrightarrow>
      store_metric data l v = data\<lparr>revenue_data := AList.update l v (revenue_data data)\<rparr>) \<and>
   (\<not> (str_in ''Sales'' l \<or> str_in ''Revenue'' l) \<and>
    (str_in ''Operating Profit'' l \<or> str_in ''EBITDA'' l \<or> str_in ''Net Profit'' l) \<longrightarrow>
      store_metric data l v = data\<lparr>profit_data := AList.update l v (profit_data data)\<rparr>) \<and>
   (\<not> (str_in ''Sales'' l \<or> str_in ''Revenue'' l) \<and>
    \<not> (str_in ''Operating Profit'' l \<or> str_in ''EBITDA'' l \<or> str_in ''Net Profit'' l) \<and>
    str_in ''margin'' (lower l) \<longrightarrow>
      store_metric data l v = data\<lparr>margin_data := AList.update l v (margin_data data)\<rparr>) \<and>
   (str_in ''Sales'' l \<and> str_in ''margin'' (lower l) \<longrightarrow>
      map_of (revenue_data (store_metric data l v)) l = Some v \<and>
      margin_data (store_metric data l v) = margin_data data \<and>
      (\<forall>r. read_row r = Some (l, v) \<longrightarrow>
         scrape_row r data = data\<lparr>revenue_data := AList.update l v (revenue_data data)\<rparr>) \<and>
      (\<forall>d c rec. fst (scrape_company_data d c) = Some rec \<longrightarrow> map_of (margin_data rec) l = None) \<and>
      (\<forall>d c p ts pre r post.
         detail d (url c) = Some p \<and> card_tables p = Some ts \<and>
         scanned_rows ts = pre @ r # post \<and> read_row r = Some (l, v) \<longrightarrow>
         (\<exists>rec. fst (scrape_company_data d c) = Some rec \<and>
            l \<in> fst ` set (revenue_data rec) \<and>
            map_of (margin_data rec) l = None \<and>
            ((\<forall>r' \<in> set post. \<forall>v'. read_row r' \<noteq> Some (l, v')) \<longrightarrow>
               map_of (revenue_data rec) l = Some v))))"
proof (intro conjI impI allI)
  assume "str_in ''Sales'' l \<or> str_in ''Revenue'' l"
  then show "store_metric data l v = data\<lparr>revenue_data := AList.update l v (revenue_data data)\<rparr>"
    by (simp add: store_metric_def)
next
  assume "\<not> (str_in ''Sales'' l \<or> str_in ''Revenue'' l) \<and>
    (str_in ''Operating Profit'' l \<or> str_in ''EBITDA'' l \<or> str_in ''Net Profit'' l)"
  then show "store_metric data l v = data\<lparr>profit_data := AList.update l v (profit_data data)\<rparr>"
    by (auto simp: store_metric_def)
next
  assume "\<not> (str_in ''Sales'' l \<or> str_in ''Revenue'' l) \<and>
    \<not> (str_in ''Operating Profit'' l \<or> str_in ''EBITDA'' l \<or> str_in ''Net Profit'' l) \<and>
    str_in ''margin'' (lower l)"
  then show "store_metric data l v = data\<lparr>margin_data := AList.update l v (margin_data data)\<rparr>"
    by (simp add: store_metric_def)
next
  assume "str_in ''Sales'' l \<and> str_in ''margin'' (lower l)"
  then show "map_of (revenue_data (store_metric data l v)) l = Some v"
    by (simp add: store_metric_def AList.update_conv')
next
  assume "str_in ''Sales'' l \<and> str_in ''margin'' (lower l)"
  then show "margin_data (store_metric data l v) = margin_data data"
    by (simp add: store_metric_def)
next
  fix r :: table_row
  assume "str_in ''Sales'' l \<and> str_in ''margin'' (lower l)" and "read_row r = Some (l, v)"
  then show "scrape_row r data = data\<lparr>revenue_data := AList.update l v (revenue_data data)\<rparr>"
    by (simp add: scrape_row_def store_metric_def)
next
  fix d c rec
  assume l: "str_in ''Sales'' l \<and> str_in ''margin'' (lower l)"
    and rec: "fst (scrape_company_data d c) = Some rec"
  have "series_of l = Some Revenue"
    using l by (simp add: series_of_def)
  then have "l \<notin> fst ` set (series_data Margin rec)"
    using record_filed [OF rec, of l Margin] by auto
  then show "map_of (margin_data rec) l = None"
    by (simp add: map_of_eq_None_iff)
next
  fix d :: driver and c :: company and p :: detail_page and ts :: "card_table list"
    and pre post :: "table_row list" and r :: table_row
  assume l: "str_in ''Sales'' l \<and> str_in ''margin'' (lower l)"
    and page: "detail d (url c) = Some p \<and> card_tables p = Some ts \<and>
         scanned_rows ts = pre @ r # post \<and> read_row r = Some (l, v)"
  have s: "series_of l = Some Revenue"
    using l by (simp add: series_of_def)
  from page have 1: "detail d (url c) = Some p" and 2: "card_tables p = Some ts"
    and 3: "scanned_rows ts = pre @ r # post" and 4: "read_row r = Some (l, v)"
    by simp_all
  from record_row_filed [OF 1 2 3 4 s] obtain rec
    where rec: "fst (scrape_company_data d c) = Some rec"
      and key: "l \<in> fst ` set (series_data Revenue rec)"
      and last: "(\<forall>r' \<in> set post. \<forall>v'. read_row r' \<noteq> Some (l, v')) \<longrightarrow>
        map_of (series_data Revenue rec) l = Some v"
    by blast
  have "l \<notin> fst ` set (series_data Margin rec)"
    using record_filed [OF rec, of l Margin] s by auto
  then have none: "map_of (margin_data rec) l = None"
    by (simp add: map_of_eq_None_iff)
  from rec key last none
  show "\<exists>rec. fst (scrape_company_data d c) = Some rec \<and>
            l \<in> fst ` set (revenue_data rec) \<and>
            map_of (margin_data rec) l = None \<and>
            ((\<forall>r' \<in> set post. \<forall>v'. read_row r' \<noteq> Some (l, v')) \<longrightarrow>
               map_of (revenue_data rec) l = Some v)"
    by (intro exI [of _ rec]) simp
qed

theorem sales_label_filed_under_revenue_witness:
  "str_in ''Sales'' ''Sales Margin %'' \<and> str_in ''margin'' (lower ''Sales Margin %'') \<and>
   revenue_data (store_metric (initial_data ex_company) ''Sales Margin %'' [''12%'', ''14%'']) =
     [(''Sales Margin %'', [''12%'', ''14%''])] \<and>
   margin_data (store_metric (initial_data ex_company) ''Sales Margin %'' [''12%'', ''14%'']) = [] \<and>
   (\<exists>rec. fst (scrape_company_data
        (site (table_page [\<lparr>thead_th = Some (Some ''Ratios''),
             tbody_tr = Some [Some [Some ''Sales Margin %'', Some ''12%'', Some ''14%'']]\<rparr>]))
        ex_company) = Some rec \<and>
      map_of (revenue_data rec) ''Sales Margin %'' = Some [''12%'', ''14%''] \<and>
      map_of (margin_data rec) ''Sales Margin %'' = None)"
proof -
  let ?l = "''Sales Margin %''"
  let ?v = "[''12%'', ''14%'']"
  let ?r = "Some [Some ''Sales Margin %'', Some ''12%'', Some ''14%'']"
  let ?ts = "[\<lparr>thead_th = Some (Some ''Ratios''), tbody_tr = Some [?r]\<rparr>]"
  let ?d = "site (table_page ?ts)"
  have h: "str_in ''Sales'' ?l \<and> str_in ''margin'' (lower ?l)"
    by (simp add: lower_def lower_char_def upper_chars_def lower_chars_def)
  note inst = sales_label_filed_under_revenue [of ?l "initial_data ex_company" ?v]
  have 1: "store_metric (initial_data ex_company) ?l ?v =
      (initial_data ex_company)\<lparr>revenue_data := AList.update ?l ?v
        (revenue_data (initial_data ex_company))\<rparr>"
    by (rule mp [OF inst [THEN conjunct1] disjI1 [OF h [THEN conjunct1]]])
  note rest = mp [OF inst [THEN conjunct2, THEN conjunct2, THEN conjunct2] h]
  note 2 = rest [THEN conjunct2, THEN conjunct1]
  note page = rest [THEN conjunct2, THEN conjunct2, THEN conjunct2, THEN conjunct2, rule_format]
  have p1: "detail ?d (url ex_company) = Some (table_page ?ts)"
    by (simp add: site_def)
  have p2: "card_tables (table_page ?ts) = Some ?ts"
    by (simp add: table_page_def)
  have p3: "scanned_rows ?ts = [] @ ?r # []"
    by (simp add: scanned_rows_def text_strip_def)
  have p4: "read_row ?r = Some (?l, ?v)"
    by (simp add: read_row_def strip_def is_space_def)
  from page [of ?d ex_company "table_page ?ts" ?ts "[]" ?r "[]"] p1 p2 p3 p4
  obtain rec where rec: "fst (scrape_company_data ?d ex_company) = Some rec"
    and rev: "(\<forall>r' \<in> set []. \<forall>v'. read_row r' \<noteq> Some (?l, v')) \<longrightarrow>
        map_of (revenue_data rec) ?l = Some ?v"
    and mar: "map_of (margin_data rec) ?l = None"
    by blast
  from rev have rev': "map_of (revenue_data rec) ?l = Some ?v"
    by simp
  have r: "revenue_data (store_metric (initial_data ex_company) ?l ?v) = [(?l, ?v)]"
    unfolding 1 by (simp add: initial_data_def)
  have g: "margin_data (store_metric (initial_data ex_company) ?l ?v) = []"
    unfolding 2 by (simp add: initial_data_def)
  have e: "\<exists>rec. fst (scrape_company_data ?d ex_company) = Some rec \<and>
      map_of (revenue_data rec) ?l = Some ?v \<and> map_of (margin_data rec) ?l = None"
    using rec rev' mar by (intro exI [of _ rec]) simp
  from h r g e show ?thesis by (intro conjI) (rule conjunct1, assumption, rule conjunct2, assumption)
qed

text \<open>
  Claim C4. The record extractor returns no record exactly when the navigation to the
  company page raises. Whenever the navigation succeeds it returns a record carrying the
  name and the URL of the company, and when every extraction on the page fails that
  record has its four scalar fields absent and its series and quarterly list empty.
\<close>

theorem record_unless_navigation_fails:
  "(fst (scrape_company_data d c) = None \<longleftrightarrow> detail d (url c) = None) \<and>
   (\<forall>p. detail d (url c) = Some p \<longrightarrow>
      (\<exists>data. fst (scrape_company_data d c) = Some data \<and> name data = name c \<and> url data = url c)) \<and>
   (\<forall>p. detail d (url c) = Some p \<and> all_extraction_raises p \<longrightarrow>
      fst (scrape_company_data d c) =
        Some \<lparr>name = name c, url = url c,
              current_price = None, market_cap = None, pe_ratio = None, sector = None,
              revenue_data = [], profit_data = [], margin_data = [], quarterly_data = []\<rparr>)"
proof (intro conjI allI impI)
  show "fst (scrape_company_data d c) = None \<longleftrightarrow> detail d (url c) = None"
    by (simp add: scrape_company_data_def split: option.splits)
next
  fix p assume p: "detail d (url c) = Some p"
  let ?b = "extract_basic_info p (initial_data c)"
  obtain r q m where t: "extract_tables p ?b = ?b\<lparr>revenue_data := r, profit_data := q, margin_data := m\<rparr>"
    using extract_tables_shape by blast
  have b: "name ?b = name c \<and> url ?b = url c"
    by (simp add: extract_basic_info_def initial_data_def split: option.splits)
  have "name (extract_quarterly p (extract_tables p ?b)) = name c"
    "url (extract_quarterly p (extract_tables p ?b)) = url c"
    using b by (simp_all add: t extract_quarterly_def split: option.splits)
  then show "\<exists>data. fst (scrape_company_data d c) = Some data \<and> name data = name c \<and> url data = url c"
    using p by (simp add: scrape_company_data_def)
next
  fix p assume "detail d (url c) = Some p \<and> all_extraction_raises p"
  then show "fst (scrape_company_data d c) =
        Some \<lparr>name = name c, url = url c,
              current_price = None, market_cap = None, pe_ratio = None, sector = None,
              revenue_data = [], profit_data = [], margin_data = [], quarterly_data = []\<rparr>"
    using all_extraction_raises_initial [of p c]
    by (simp add: scrape_company_data_def) (simp add: initial_data_def)
qed

theorem record_unless_navigation_fails_witness:
  "detail (site failing_page) (url ex_company) = Some failing_page \<and>
   all_extraction_raises failing_page \<and>
   fst (scrape_company_data (site failing_page) ex_company) =
     Some \<lparr>name = ''Acme'', url = ''https://www.screener.in/company/ACME/'',
           current_price = None, market_cap = None, pe_ratio = None, sector = None,
           revenue_data = [], profit_data = [], margin_data = [], quarterly_data = []\<rparr> \<and>
   detail (site failing_page) ''https://www.screener.in/company/NONE/'' = None \<and>
   fst (scrape_company_data (site failing_page)
     \<lparr>name = ''Nowhere'', url = ''https://www.screener.in/company/NONE/''\<rparr>) = None"
proof -
  have h1: "detail (site failing_page) (url ex_company) = Some failing_page"
    by (simp add: site_def)
  have h2: "all_extraction_raises failing_page"
    by (simp add: all_extraction_raises_def failing_page_def text_strip_def table_raises_def
        valid_quarter_row_def)
  have h3: "detail (site failing_page) (url \<lparr>name = ''Nowhere'', url = ''https://www.screener.in/company/NONE/''\<rparr>) = None"
    by (simp add: site_def ex_company_def)
  from record_unless_navigation_fails [of "site failing_page" ex_company] h1 h2
  have "fst (scrape_company_data (site failing_page) ex_company) =
     Some \<lparr>name = name ex_company, url = url ex_company,
           current_price = None, market_cap = None, pe_ratio = None, sector = None,
           revenue_data = [], profit_data = [], margin_data = [], quarterly_data = []\<rparr>"
    by blast
  moreover from record_unless_navigation_fails
    [of "site failing_page" "\<lparr>name = ''Nowhere'', url = ''https://www.screener.in/company/NONE/''\<rparr>"] h3
  have "fst (scrape_company_data (site failing_page)
     \<lparr>name = ''Nowhere'', url = ''https://www.screener.in/company/NONE/''\<rparr>) = None"
    by blast
  ultimately show ?thesis using h1 h2 h3 by (simp add: ex_company_def)
qed

text \<open>
  Claim C5. The batch orchestrator calls the record extractor once for each company,
  one after the other in input order (the driver is sent to the company URLs in that
  order). Its result holds the records of the companies whose extraction returned one,
  in input order: for N companies of which k return no record it has N - k entries.
\<close>

theorem batch_keeps_successes_in_order:
  "fst (scrape_all_companies d cs) = List.map_filter (\<lambda>c. fst (scrape_company_data d c)) cs \<and>
   length (fst (scrape_all_companies d cs)) =
     length cs - length (filter (\<lambda>c. fst (scrape_company_data d c) = None) cs) \<and>
   map name (fst (scrape_all_companies d cs)) =
     map name (filter (\<lambda>c. fst (scrape_company_data d c) \<noteq> None) cs) \<and>
   history (snd (scrape_all_companies d cs)) = history d @ map url cs"
proof -
  have r: "fst (scrape_all_companies d cs) = List.map_filter (\<lambda>c. fst (scrape_company_data d c)) cs"
    by (simp add: scrape_all_companies_def scrape_loop_eq)
  have h: "history (snd (scrape_all_companies d cs)) = history d @ map url cs"
    by (simp add: scrape_all_companies_def scrape_loop_eq)
  have l: "length (fst (scrape_all_companies d cs)) =
     length cs - length (filter (\<lambda>c. fst (scrape_company_data d c) = None) cs)"
    unfolding r using length_map_filter_split [of "\<lambda>c. fst (scrape_company_data d c)" cs] by linarith
  have n: "map name (fst (scrape_all_companies d cs)) =
     map name (filter (\<lambda>c. fst (scrape_company_data d c) \<noteq> None) cs)"
    unfolding r by (rule map_filter_names)
  from r l n h show ?thesis by (intro conjI)
qed

theorem batch_keeps_successes_in_order_witness:
  "map (\<lambda>c. fst (scrape_company_data batch_driver c) = None) three_companies = [False, True, False] \<and>
   length (fst (scrape_all_companies batch_driver three_companies)) = 2 \<and>
   map name (fst (scrape_all_companies batch_driver three_companies)) = [''Acme'', ''Initech''] \<and>
   history (snd (scrape_all_companies batch_driver three_companies)) =
     [''https://www.screener.in/company/ACME/'', ''https://www.screener.in/company/GLOBEX/'',
      ''https://www.screener.in/company/INITECH/'']"
proof -
  have f: "map (\<lambda>c. fst (scrape_company_data batch_driver c) = None) three_companies = [False, True, False]"
    by (simp add: three_companies_def batch_driver_def scrape_company_data_def)
  then have k: "filter (\<lambda>c. fst (scrape_company_data batch_driver c) = None) three_companies =
      [\<lparr>name = ''Globex'', url = ''https://www.screener.in/company/GLOBEX/''\<rparr>]"
    and s: "filter (\<lambda>c. fst (scrape_company_data batch_driver c) \<noteq> None) three_companies =
      [\<lparr>name = ''Acme'', url = ''https://www.screener.in/company/ACME/''\<rparr>,
       \<lparr>name = ''Initech'', url = ''https://www.screener.in/company/INITECH/''\<rparr>]"
    by (simp_all add: three_companies_def)
  note inst = batch_keeps_successes_in_order [of batch_driver three_companies]
  have 1: "length (fst (scrape_all_companies batch_driver three_companies)) = 2"
    using inst [THEN conjunct2, THEN conjunct1] unfolding k by (simp add: three_companies_def)
  have 2: "map name (fst (scrape_all_companies batch_driver three_companies)) = [''Acme'', ''Initech'']"
    using inst [THEN conjunct2, THEN conjunct2, THEN conjunct1] unfolding s by simp
  have 3: "history (snd (scrape_all_companies batch_driver three_companies)) =
     [''https://www.screener.in/company/ACME/'', ''https://www.screener.in/company/GLOBEX/'',
      ''https://www.screener.in/company/INITECH/'']"
    using inst [THEN conjunct2, THEN conjunct2, THEN conjunct2]
    by (simp add: three_companies_def batch_driver_def)
  from f 1 2 3 show ?thesis by (intro conjI)
qed

text \<open>
  Claim C6. Quarterly extraction reads at most the first 8 body rows of the quarterly
  table; a row is kept only if it has at least 3 cells, which give period, sales and
  profit by position, and a row that is too short or cannot be read is skipped. For a
  table of 12 valid rows exactly the first 8 are retained, in their order.
\<close>

theorem quarterly_first_eight_rows:
  assumes "detail d (url c) = Some p" and "quarters_tr p = Some q_rows"
  shows "\<exists>data. fst (scrape_company_data d c) = Some data \<and>
     quarterly_data data = concat (map (\<lambda>r. scrape_quarter_row r []) (take 8 q_rows)) \<and>
     scrape_quarter_row None [] = [] \<and>
     (\<forall>cells. length cells < 3 \<longrightarrow> scrape_quarter_row (Some cells) [] = []) \<and>
     (\<forall>cells. 3 \<le> length cells \<and> (cells ! 0 = None \<or> cells ! 1 = None \<or> cells ! 2 = None) \<longrightarrow>
        scrape_quarter_row (Some cells) [] = []) \<and>
     (\<forall>a b f rest. scrape_quarter_row (Some (Some a # Some b # Some f # rest)) [] =
        [\<lparr>period = strip a, sales = strip b, profit = strip f\<rparr>]) \<and>
     (\<forall>rs. q_rows = map (\<lambda>(a, b, f, rest). Some (Some a # Some b # Some f # rest)) rs \<and>
        length rs = 12 \<longrightarrow>
        quarterly_data data =
          map (\<lambda>(a, b, f, rest). \<lparr>period = strip a, sales = strip b, profit = strip f\<rparr>) (take 8 rs) \<and>
        length (quarterly_data data) = 8)"
proof -
  from scrape_company_data_quarterly [OF assms(1)] assms(2)
  obtain data where data: "fst (scrape_company_data d c) = Some data"
    and q: "quarterly_data data = concat (map (\<lambda>r. scrape_quarter_row r []) (take 8 q_rows))"
    by auto
  have short: "\<forall>cells. length cells < 3 \<longrightarrow> scrape_quarter_row (Some cells) [] = []"
    by (simp add: scrape_quarter_row_def)
  have unreadable: "\<forall>cells. 3 \<le> length cells \<and> (cells ! 0 = None \<or> cells ! 1 = None \<or> cells ! 2 = None) \<longrightarrow>
        scrape_quarter_row (Some cells) [] = []"
    by (auto simp: scrape_quarter_row_def split: option.splits)
  have twelve: "quarterly_data data =
          map (\<lambda>(a, b, f, rest). \<lparr>period = strip a, sales = strip b, profit = strip f\<rparr>) (take 8 rs) \<and>
        length (quarterly_data data) = 8"
    if "q_rows = map (\<lambda>(a, b, f, rest). Some (Some a # Some b # Some f # rest)) rs \<and> length rs = 12"
    for rs
  proof -
    have "take 8 q_rows = map (\<lambda>(a, b, f, rest). Some (Some a # Some b # Some f # rest)) (take 8 rs)"
      using that by (simp add: take_map)
    then have "quarterly_data data =
       map (\<lambda>(a, b, f, rest). \<lparr>period = strip a, sales = strip b, profit = strip f\<rparr>) (take 8 rs)"
      using q by (simp only: concat_valid_rows)
    then show ?thesis using that by simp
  qed
  show ?thesis
    using data q short unreadable twelve
    by (intro exI [of _ data] conjI) (simp_all add: scrape_quarter_row_def scrape_quarter_row_three)
qed

theorem quarterly_first_eight_rows_witness:
  "detail (site (quarters_page (map (\<lambda>(a, b, f, rest). Some (Some a # Some b # Some f # rest)) twelve_rows)))
      (url ex_company) =
     Some (quarters_page (map (\<lambda>(a, b, f, rest). Some (Some a # Some b # Some f # rest)) twelve_rows)) \<and>
   length twelve_rows = 12 \<and>
   map_option quarterly_data
     (fst (scrape_company_data
        (site (quarters_page (map (\<lambda>(a, b, f, rest). Some (Some a # Some b # Some f # rest)) twelve_rows)))
        ex_company)) =
     Some [\<lparr>period = ''Q01'', sales = ''101'', profit = ''11''\<rparr>,
           \<lparr>period = ''Q02'', sales = ''102'', profit = ''12''\<rparr>,
           \<lparr>period = ''Q03'', sales = ''103'', profit = ''13''\<rparr>,
           \<lparr>period = ''Q04'', sales = ''104'', profit = ''14''\<rparr>,
           \<lparr>period = ''Q05'', sales = ''105'', profit = ''15''\<rparr>,
           \<lparr>period = ''Q06'', sales = ''106'', profit = ''16''\<rparr>,
           \<lparr>period = ''Q07'', sales = ''107'', profit = ''17''\<rparr>,
           \<lparr>period = ''Q08'', sales = ''108'', profit = ''18''\<rparr>]"
proof -
  let ?rows = "map (\<lambda>(a, b, f, rest). Some (Some a # Some b # Some f # rest)) twelve_rows"
  have h1: "detail (site (quarters_page ?rows)) (url ex_company) = Some (quarters_page ?rows)"
    by (simp add: site_def)
  have h2: "quarters_tr (quarters_page ?rows) = Some ?rows"
    by (simp add: quarters_page_def)
  have len: "length twelve_rows = 12"
    by (simp add: twelve_rows_def)
  from quarterly_first_eight_rows [OF h1 h2] obtain data
    where data: "fst (scrape_company_data (site (quarters_page ?rows)) ex_company) = Some data"
      and twelve: "\<forall>rs. ?rows = map (\<lambda>(a, b, f, rest). Some (Some a # Some b # Some f # rest)) rs \<and>
        length rs = 12 \<longrightarrow>
        quarterly_data data =
          map (\<lambda>(a, b, f, rest). \<lparr>period = strip a, sales = strip b, profit = strip f\<rparr>) (take 8 rs) \<and>
        length (quarterly_data data) = 8"
    by blast
  from twelve len have "quarterly_data data =
      map (\<lambda>(a, b, f, rest). \<lparr>period = strip a, sales = strip b, profit = strip f\<rparr>) (take 8 twelve_rows)"
    by blast
  then have "quarterly_data data =
     [\<lparr>period = ''Q01'', sales = ''101'', profit = ''11''\<rparr>,
           \<lparr>period = ''Q02'', sales = ''102'', profit = ''12''\<rparr>,
           \<lparr>period = ''Q03'', sales = ''103'', profit = ''13''\<rparr>,
           \<lparr>period = ''Q04'', sales = ''104'', profit = ''14''\<rparr>,
           \<lparr>period = ''Q05'', sales = ''105'', profit = ''15''\<rparr>,
           \<lparr>period = ''Q06'', sales = ''106'', profit = ''16''\<rparr>,
           \<lparr>period = ''Q07'', sales = ''107'', profit = ''17''\<rparr>,
           \<lparr>period = ''Q08'', sales = ''108'', profit = ''18''\<rparr>]"
    by (simp add: twelve_rows_def strip_def is_space_def)
  with h1 len data show ?thesis by simp
qed

text \<open>
  Claim C7. For a row that is classified, the value sequence stored under its label is
  the text of every cell after the first, in column order, and the other two series are
  left as they were. The row \<open>Net Sales, 100, 120, 140\<close> gives the revenue series the
  entry \<open>Net Sales\<close> with the values \<open>100, 120, 140\<close>; a row with one cell, or none,
  changes nothing.
\<close>

theorem row_values_in_column_order:
  "(\<forall>t texts s. texts \<noteq> [] \<and> series_of (strip t) = Some s \<longrightarrow>
      series_data s (scrape_row (Some (Some t # map Some texts)) data) =
        AList.update (strip t) (map strip texts) (series_data s data) \<and>
      map_of (series_data s (scrape_row (Some (Some t # map Some texts)) data)) (strip t) =
        Some (map strip texts) \<and>
      (\<forall>s'. s' \<noteq> s \<longrightarrow>
         series_data s' (scrape_row (Some (Some t # map Some texts)) data) = series_data s' data)) \<and>
   (\<forall>cells. length cells < 2 \<longrightarrow> scrape_row (Some cells) data = data) \<and>
   revenue_data (scrape_row (Some [Some ''Net Sales'', Some ''100'', Some ''120'', Some ''140'']) data) =
     AList.update ''Net Sales'' [''100'', ''120'', ''140''] (revenue_data data)"
proof (intro conjI allI impI)
  fix t :: string and texts :: "string list" and s :: series
  assume a: "texts \<noteq> [] \<and> series_of (strip t) = Some s"
  then have r: "read_row (Some (Some t # map Some texts)) = Some (strip t, map strip texts)"
    by (simp add: read_row_readable)
  from a have s: "series_of (strip t) = Some s" ..
  show u: "series_data s (scrape_row (Some (Some t # map Some texts)) data) =
        AList.update (strip t) (map strip texts) (series_data s data)"
    by (rule scrape_row_stores [OF r s])
  show "map_of (series_data s (scrape_row (Some (Some t # map Some texts)) data)) (strip t) =
        Some (map strip texts)"
    unfolding u by (simp add: AList.update_conv')
  fix s' :: series assume "s' \<noteq> s"
  then have "series_of (strip t) \<noteq> Some s'"
    using s by simp
  then show "series_data s' (scrape_row (Some (Some t # map Some texts)) data) = series_data s' data"
    by (rule scrape_row_other_series [OF r])
next
  fix cells :: "elem list" assume "length cells < 2"
  then show "scrape_row (Some cells) data = data"
    by (simp add: scrape_row_skips read_row_short)
next
  have r: "read_row (Some [Some ''Net Sales'', Some ''100'', Some ''120'', Some ''140'']) =
      Some (''Net Sales'', [''100'', ''120'', ''140''])"
    by (simp add: read_row_def strip_def is_space_def)
  have s: "series_of ''Net Sales'' = Some Revenue"
    by (simp add: series_of_def)
  show "revenue_data (scrape_row (Some [Some ''Net Sales'', Some ''100'', Some ''120'', Some ''140'']) data) =
     AList.update ''Net Sales'' [''100'', ''120'', ''140''] (revenue_data data)"
    using scrape_row_stores [OF r s, of data] by simp
qed

theorem row_values_in_column_order_witness:
  "series_of (strip '' Net Sales '') = Some Revenue \<and>
   revenue_data (scrape_row (Some (Some '' Net Sales '' # map Some [''100'', '' 120'', ''140 '']))
       (initial_data ex_company)) =
     [(''Net Sales'', [''100'', ''120'', ''140''])] \<and>
   profit_data (scrape_row (Some (Some '' Net Sales '' # map Some [''100'', '' 120'', ''140 '']))
       (initial_data ex_company)) = [] \<and>
   scrape_row (Some [Some ''Net Sales'']) (initial_data ex_company) = initial_data ex_company \<and>
   map_option revenue_data
     (fst (scrape_company_data
        (site (table_page [\<lparr>thead_th = Some (Some ''Profit & Loss''), tbody_tr = Some [net_sales_row]\<rparr>]))
        ex_company)) =
     Some [(''Net Sales'', [''100'', ''120'', ''140''])]"
proof -
  let ?t = "'' Net Sales ''"
  let ?texts = "[''100'', '' 120'', ''140 '']"
  let ?data = "initial_data ex_company"
  note inst = row_values_in_column_order [of ?data]
  have st: "strip ?t = ''Net Sales''"
    by (simp add: strip_def is_space_def)
  have h: "?texts \<noteq> [] \<and> series_of (strip ?t) = Some Revenue"
    by (simp add: st series_of_def)
  note row = inst [THEN conjunct1, rule_format, OF h]
  have 1: "revenue_data (scrape_row (Some (Some ?t # map Some ?texts)) ?data) =
      [(''Net Sales'', [''100'', ''120'', ''140''])]"
    using row [THEN conjunct1] by (simp add: st initial_data_def strip_def is_space_def)
  have "Profit \<noteq> Revenue"
    by simp
  from row [THEN conjunct2, THEN conjunct2, rule_format, OF this]
  have 2: "profit_data (scrape_row (Some (Some ?t # map Some ?texts)) ?data) = []"
    by (simp add: initial_data_def)
  have "length [Some ''Net Sales''] < 2"
    by simp
  from inst [THEN conjunct2, THEN conjunct1, rule_format, OF this]
  have 3: "scrape_row (Some [Some ''Net Sales'']) ?data = ?data" .
  have 4: "map_option revenue_data
     (fst (scrape_company_data
        (site (table_page [\<lparr>thead_th = Some (Some ''Profit & Loss''), tbody_tr = Some [net_sales_row]\<rparr>]))
        ex_company)) =
     Some [(''Net Sales'', [''100'', ''120'', ''140''])]"
    using row_values_in_column_order [of "initial_data ex_company", THEN conjunct2, THEN conjunct2]
    by (simp add: scrape_company_data_def site_def table_page_def extract_basic_info_def
        extract_tables_def scrape_table_def extract_quarterly_def text_strip_def net_sales_row_def)
      (simp add: initial_data_def)
  from h 1 2 3 4 show ?thesis by (simp only: simp_thms)
qed

text \<open>
  Claim C8, as amended. When the login has succeeded and the watchlists yield no
  company, the run ends at once with exit status 0: the driver has been sent to the
  login page and to the watchlists with a non-empty URL only, so no record extraction
  has started, and no publisher is called. This is the case in particular when no
  watchlist has a non-empty URL.
\<close>

theorem no_companies_ends_run:
  "(missing e = [] \<and> login_succeeds d \<and>
    fst (get_all_watchlist_companies (snd (login_to_screener d)) (WATCHLISTS e)) = [] \<longrightarrow>
      main e (Some d) =
        \<lparr>exit_status = 0,
         navigations = history d @ login_url # filter (\<lambda>u. u \<noteq> []) (map snd (WATCHLISTS e)),
         published = []\<rparr>) \<and>
   (missing e = [] \<and> login_succeeds d \<and>
    getenv_default (MY_STONKS_WATCHLIST_URL e) = [] \<and> getenv_default (CORE_WATCHLIST_URL e) = [] \<longrightarrow>
      main e (Some d) = \<lparr>exit_status = 0, navigations = history d @ [login_url], published = []\<rparr>)"
proof (intro conjI impI)
  assume a: "missing e = [] \<and> login_succeeds d \<and>
    fst (get_all_watchlist_companies (snd (login_to_screener d)) (WATCHLISTS e)) = []"
  let ?d1 = "driver_get d login_url"
  have l: "login_to_screener d = (True, ?d1)"
    using a by (simp add: login_to_screener_def)
  obtain companies d2 where g: "get_all_watchlist_companies ?d1 (WATCHLISTS e) = (companies, d2)"
    by (cases "get_all_watchlist_companies ?d1 (WATCHLISTS e)")
  from a have "fst (get_all_watchlist_companies ?d1 (WATCHLISTS e)) = []"
    by (simp add: l)
  with g have c: "companies = []"
    by simp
  have "history d2 = history ?d1 @ filter (\<lambda>u. u \<noteq> []) (map snd (WATCHLISTS e))"
    using get_all_watchlist_companies_history [of ?d1 "WATCHLISTS e"] unfolding g by simp
  then have h: "history d2 = history d @ login_url # filter (\<lambda>u. u \<noteq> []) (map snd (WATCHLISTS e))"
    by (simp add: driver_get_def)
  have m: "missing e = []"
    using a by simp
  show "main e (Some d) =
        \<lparr>exit_status = 0,
         navigations = history d @ login_url # filter (\<lambda>u. u \<noteq> []) (map snd (WATCHLISTS e)),
         published = []\<rparr>"
    unfolding main_def by (simp add: m l g c h)
next
  assume a: "missing e = [] \<and> login_succeeds d \<and>
    getenv_default (MY_STONKS_WATCHLIST_URL e) = [] \<and> getenv_default (CORE_WATCHLIST_URL e) = []"
  then show "main e (Some d) = \<lparr>exit_status = 0, navigations = history d @ [login_url], published = []\<rparr>"
    by (simp add: main_def login_to_screener_def WATCHLISTS_def get_all_watchlist_companies_def
        driver_get_def)
qed

theorem no_companies_ends_run_witness:
  "missing listed_env = [] \<and> login_succeeds (site (scalar_page None None None None)) \<and>
   fst (get_all_watchlist_companies (snd (login_to_screener (site (scalar_page None None None None))))
        (WATCHLISTS listed_env)) = [] \<and>
   main listed_env (Some (site (scalar_page None None None None))) =
     \<lparr>exit_status = 0,
      navigations = [''https://www.screener.in/login/'', ''https://www.screener.in/watchlist/9/''],
      published = []\<rparr> \<and>
   main empty_env (Some (site (scalar_page None None None None))) =
     \<lparr>exit_status = 0, navigations = [''https://www.screener.in/login/''], published = []\<rparr>"
proof -
  let ?d = "site (scalar_page None None None None)"
  have m: "missing listed_env = []" "missing empty_env = []"
    by (simp_all add: missing_def unset_def listed_env_def empty_env_def)
  have l: "login_succeeds ?d"
    by (simp add: site_def)
  have g: "fst (get_all_watchlist_companies (snd (login_to_screener ?d)) (WATCHLISTS listed_env)) = []"
    by (simp add: get_all_watchlist_companies_def WATCHLISTS_def listed_env_def getenv_default_def
        login_to_screener_def driver_get_def site_def scrape_watchlist_companies_def)
  have u: "getenv_default (MY_STONKS_WATCHLIST_URL empty_env) = []"
    "getenv_default (CORE_WATCHLIST_URL empty_env) = []"
    by (simp_all add: getenv_default_def empty_env_def)
  note inst1 = no_companies_ends_run [of listed_env ?d, THEN conjunct1, rule_format]
  note inst2 = no_companies_ends_run [of empty_env ?d, THEN conjunct2, rule_format]
  have 1: "main listed_env (Some ?d) =
     \<lparr>exit_status = 0,
      navigations = [''https://www.screener.in/login/'', ''https://www.screener.in/watchlist/9/''],
      published = []\<rparr>"
    using inst1 m(1) l g
    by (simp add: WATCHLISTS_def listed_env_def getenv_default_def login_url_def site_def)
  have 2: "main empty_env (Some ?d) =
     \<lparr>exit_status = 0, navigations = [''https://www.screener.in/login/''], published = []\<rparr>"
    using inst2 m(2) l u by (simp add: login_url_def site_def)
  from m(1) l g 1 2 show ?thesis by (intro conjI)
qed

text \<open>
  Claim C8 as stated fails: with no watchlist URL configured the run finds no company
  and ends with exit status 0, the status of a successful run, not with a failure.
\<close>

theorem no_companies_is_not_a_failure:
  "fst (get_all_watchlist_companies (snd (login_to_screener (site (scalar_page None None None None))))
        (WATCHLISTS empty_env)) = [] \<and>
   exit_status (main empty_env (Some (site (scalar_page None None None None)))) = 0 \<and>
   exit_status (main (empty_env\<lparr>SCREENER_PASSWORD := None\<rparr>)
     (Some (site (scalar_page None None None None)))) = 1"
  by (simp add: main_def missing_def unset_def empty_env_def login_to_screener_def site_def
      WATCHLISTS_def getenv_default_def get_all_watchlist_companies_def driver_get_def)

text \<open>
  Claim C9. When a label occurs in several classified rows of the tables of a company
  page, the values of the last such row, in page order, are the ones the record holds
  under that label: each later store replaces the earlier one, and every series holds
  one value sequence per label.
\<close>

theorem last_occurrence_wins:
  assumes "detail d (url c) = Some p" and "card_tables p = Some ts"
    and "scanned_rows ts = pre @ r # post"
    and "read_row r = Some (l, v)" and "series_of l = Some s"
    and "\<forall>r' \<in> set post. \<forall>v'. read_row r' \<noteq> Some (l, v')"
  shows "\<exists>data. fst (scrape_company_data d c) = Some data \<and>
     map_of (series_data s data) l = Some v \<and>
     filter (\<lambda>e. fst e = l) (series_data s data) = [(l, v)] \<and>
     (\<forall>s'. distinct (map fst (series_data s' data)))"
proof -
  let ?b = "extract_basic_info p (initial_data c)"
  let ?t = "extract_tables p ?b"
  from scrape_company_data_series [OF assms(1)] obtain data
    where data: "fst (scrape_company_data d c) = Some data"
      and ser: "\<forall>s. series_data s data = series_data s ?t"
    by blast
  have t: "?t = fold scrape_row post (scrape_row r (fold scrape_row pre ?b))"
    using assms(2,3) by (simp add: extract_tables_rows)
  have "map_of (series_data s ?t) l = map_of (series_data s (scrape_row r (fold scrape_row pre ?b))) l"
    unfolding t by (rule fold_scrape_row_keeps [OF assms(6)])
  also have "\<dots> = Some v"
    by (simp add: scrape_row_stores [OF assms(4,5)] AList.update_conv')
  finally have look: "map_of (series_data s ?t) l = Some v" .
  have "\<forall>s. distinct (map fst (series_data s ?b))"
    by simp
  then have "\<forall>s. distinct (map fst (series_data s (fold scrape_row (scanned_rows ts) ?b)))"
    by (rule fold_scrape_row_distinct)
  then have dist: "\<forall>s. distinct (map fst (series_data s ?t))"
    using assms(2) by (simp add: extract_tables_rows)
  have "filter (\<lambda>e. fst e = l) (series_data s ?t) = [(l, v)]"
    using dist look by (intro filter_key_distinct) simp_all
  with data look dist ser show ?thesis
    by (intro exI [of _ data]) simp
qed

theorem last_occurrence_wins_witness:
  "scanned_rows two_tables =
     [Some [Some ''Net Sales'', Some ''10'', Some ''20''], Some [Some ''Net Profit'', Some ''1'', Some ''2'']] @
     Some [Some ''Net Sales'', Some ''30'', Some ''40''] # [Some [Some ''Expenses'', Some ''5'', Some ''6'']] \<and>
   read_row (Some [Some ''Net Sales'', Some ''10'', Some ''20'']) = Some (''Net Sales'', [''10'', ''20'']) \<and>
   read_row (Some [Some ''Net Sales'', Some ''30'', Some ''40'']) = Some (''Net Sales'', [''30'', ''40'']) \<and>
   series_of ''Net Sales'' = Some Revenue \<and>
   (\<exists>data. fst (scrape_company_data (site (table_page two_tables)) ex_company) = Some data \<and>
      map_of (revenue_data data) ''Net Sales'' = Some [''30'', ''40''] \<and>
      filter (\<lambda>e. fst e = ''Net Sales'') (revenue_data data) = [(''Net Sales'', [''30'', ''40''])])"
proof -
  let ?pre = "[Some [Some ''Net Sales'', Some ''10'', Some ''20''], Some [Some ''Net Profit'', Some ''1'', Some ''2'']]"
  let ?r = "Some [Some ''Net Sales'', Some ''30'', Some ''40'']"
  let ?post = "[Some [Some ''Expenses'', Some ''5'', Some ''6'']]"
  have h1: "detail (site (table_page two_tables)) (url ex_company) = Some (table_page two_tables)"
    by (simp add: site_def)
  have h2: "card_tables (table_page two_tables) = Some two_tables"
    by (simp add: table_page_def)
  have h3: "scanned_rows two_tables = ?pre @ ?r # ?post"
    by (simp add: scanned_rows_def two_tables_def text_strip_def)
  have h4: "read_row ?r = Some (''Net Sales'', [''30'', ''40''])"
    by (simp add: read_row_def strip_def is_space_def)
  have h4': "read_row (Some [Some ''Net Sales'', Some ''10'', Some ''20'']) = Some (''Net Sales'', [''10'', ''20''])"
    by (simp add: read_row_def strip_def is_space_def)
  have h5: "series_of ''Net Sales'' = Some Revenue"
    by (simp add: series_of_def)
  have h6: "\<forall>r' \<in> set ?post. \<forall>v'. read_row r' \<noteq> Some (''Net Sales'', v')"
    by (simp add: read_row_def strip_def is_space_def)
  from last_occurrence_wins [OF h1 h2 h3 h4 h5 h6] obtain data
    where "fst (scrape_company_data (site (table_page two_tables)) ex_company) = Some data"
      and "map_of (series_data Revenue data) ''Net Sales'' = Some [''30'', ''40'']"
      and "filter (\<lambda>e. fst e = ''Net Sales'') (series_data Revenue data) = [(''Net Sales'', [''30'', ''40''])]"
    by blast
  then have "\<exists>data. fst (scrape_company_data (site (table_page two_tables)) ex_company) = Some data \<and>
      map_of (revenue_data data) ''Net Sales'' = Some [''30'', ''40''] \<and>
      filter (\<lambda>e. fst e = ''Net Sales'') (revenue_data data) = [(''Net Sales'', [''30'', ''40''])]"
    by (intro exI [of _ data]) simp
  with h3 h4 h4' h5 show ?thesis by (simp only: simp_thms)
qed

text \<open>
  Claim C10. The slice of the first 8 rows is taken before the test on the number of
  cells: the number of quarters is the number of valid rows among the first 8, so a
  malformed row among them leaves fewer than 8 quarters, and the rows after the eighth
  are never read (the page cut after its eighth quarterly row gives the same record).
\<close>

theorem quarterly_slice_before_filter:
  assumes "detail d (url c) = Some p" and "quarters_tr p = Some q_rows"
  shows "\<exists>data. fst (scrape_company_data d c) = Some data \<and>
     length (quarterly_data data) = length (filter valid_quarter_row (take 8 q_rows)) \<and>
     ((\<exists>r \<in> set (take 8 q_rows). \<not> valid_quarter_row r) \<longrightarrow> length (quarterly_data data) < 8) \<and>
     fst (scrape_company_data
            (d\<lparr>detail := (detail d)(url c \<mapsto> p\<lparr>quarters_tr := Some (take 8 q_rows)\<rparr>)\<rparr>) c) =
       Some data"
proof -
  from scrape_company_data_quarterly [OF assms(1)] assms(2)
  obtain data where data: "fst (scrape_company_data d c) = Some data"
    and q: "quarterly_data data = concat (map (\<lambda>r. scrape_quarter_row r []) (take 8 q_rows))"
    by auto
  have len: "length (quarterly_data data) = length (filter valid_quarter_row (take 8 q_rows))"
    by (simp only: q length_quarter_rows)
  have less: "length (quarterly_data data) < 8" if "\<exists>r \<in> set (take 8 q_rows). \<not> valid_quarter_row r"
  proof -
    from that obtain r where "r \<in> set (take 8 q_rows)" and "\<not> valid_quarter_row r"
      by blast
    then have "length (filter valid_quarter_row (take 8 q_rows)) < length (take 8 q_rows)"
      by (rule length_filter_less)
    moreover have "length (take 8 q_rows) \<le> 8"
      by simp
    ultimately show ?thesis using len by linarith
  qed
  have trunc: "fst (scrape_company_data
            (d\<lparr>detail := (detail d)(url c \<mapsto> p\<lparr>quarters_tr := Some (take 8 q_rows)\<rparr>)\<rparr>) c) =
       Some data"
    using data assms by (simp add: scrape_company_data_def extract_quarterly_take)
  show ?thesis using data len less trunc by blast
qed

theorem quarterly_slice_before_filter_witness:
  "detail (site (quarters_page nine_rows)) (url ex_company) = Some (quarters_page nine_rows) \<and>
   quarters_tr (quarters_page nine_rows) = Some nine_rows \<and>
   \<not> valid_quarter_row (nine_rows ! 2) \<and> valid_quarter_row (nine_rows ! 8) \<and>
   map_option (\<lambda>data. length (quarterly_data data))
     (fst (scrape_company_data (site (quarters_page nine_rows)) ex_company)) = Some 7"
proof -
  have h1: "detail (site (quarters_page nine_rows)) (url ex_company) = Some (quarters_page nine_rows)"
    by (simp add: site_def)
  have h2: "quarters_tr (quarters_page nine_rows) = Some nine_rows"
    by (simp add: quarters_page_def)
  from quarterly_slice_before_filter [OF h1 h2] obtain data
    where data: "fst (scrape_company_data (site (quarters_page nine_rows)) ex_company) = Some data"
      and len: "length (quarterly_data data) = length (filter valid_quarter_row (take 8 nine_rows))"
    by blast
  have "length (filter valid_quarter_row (take 8 nine_rows)) = 7"
    by (simp add: nine_rows_def valid_quarter_row_def)
  moreover have "\<not> valid_quarter_row (nine_rows ! 2)" "valid_quarter_row (nine_rows ! 8)"
    by (simp_all add: nine_rows_def valid_quarter_row_def)
  ultimately show ?thesis using h1 h2 data len by simp
qed

end
